theory Spec2Isabelle
  imports Complex_Main "HOL-Library.Multiset" "HOL-Library.Char_ord" "HOL-Library.List_Lexorder"
begin

section \<open>cellSNP: the orchestration in \<open>main\<close> (src/cellSNP/cellSNP.py)\<close>

text \<open>
  The development embeds \<open>main\<close> of \<open>cellSNP.py\<close>: option checking, barcode loading,
  the partition of the work into tasks (one per chromosome, or one index block per
  worker), their dispatch (sequential or through a process pool), and the final call of
  \<open>merge_vcf\<close>. Python strings are \<open>string\<close> (ASCII input is assumed), Python's unbounded
  integers are \<open>int\<close>, \<open>None\<close>-able values are \<open>option\<close>, and every \<open>sys.exit\<close> or exception
  is a value of \<open>exn\<close>.
\<close>

subsection \<open>Python string and list primitives used by \<open>main\<close>\<close>

type_synonym path = string

text \<open>
  How a call ends when it does not return a value: with a Python exception, or not at
  all. \<open>SystemExit\<close> is what \<open>sys.exit\<close> raises; it is not of class \<open>Exception\<close>. \<open>External\<close>
  names any other exception of class \<open>Exception\<close>. \<open>Hang\<close> is not an exception: it stands
  for a call that never returns; like an exception it ends everything that would follow.
\<close>

datatype exn =
    SystemExit int
  | ZeroDivisionError
  | ValueError
  | External string
  | Hang

text \<open>\<open>str.isspace\<close> on ASCII characters.\<close>

definition isspace :: "char \<Rightarrow> bool" where
  "isspace c = (c \<in> set [CHR 0x20, CHR 0x09, CHR 0x0A, CHR 0x0B, CHR 0x0C, CHR 0x0D,
                            CHR 0x1C, CHR 0x1D, CHR 0x1E, CHR 0x1F])"

text \<open>\<open>x.rstrip()\<close>: drop the trailing whitespace.\<close>

definition rstrip :: "string \<Rightarrow> string" where
  "rstrip s = rev (dropWhile isspace (rev s))"

text \<open>
  \<open>s.split(sep)\<close> for a one-character separator: a scan that collects the current
  segment in \<open>cur\<close> and closes it at each separator and at the end; never the empty list.
\<close>

fun split_from :: "char \<Rightarrow> string \<Rightarrow> string \<Rightarrow> string list" where
  "split_from sep cur [] = [cur]"
| "split_from sep cur (c # cs) =
     (if c = sep then cur # split_from sep [] cs else split_from sep (cur @ [c]) cs)"

definition split_chr :: "char \<Rightarrow> string \<Rightarrow> string list" where
  "split_chr sep s = split_from sep [] s"

text \<open>\<open>s.upper()\<close> on ASCII letters.\<close>

definition upper_chr :: "char \<Rightarrow> char" where
  "upper_chr c =
     (if (97::nat) \<le> of_char c \<and> of_char c \<le> (122::nat)
      then char_of (of_char c - (32::nat)) else c)"

definition upper :: "string \<Rightarrow> string" where
  "upper s = map upper_chr s"

text \<open>\<open>str(n)\<close> and \<open>"%d" % n\<close>: the decimal digits of an integer.\<close>

definition digit_chr :: "nat \<Rightarrow> char" where
  "digit_chr d = char_of (48 + d)"

fun str_nat :: "nat \<Rightarrow> string" where
  "str_nat n = (if n < 10 then [digit_chr n] else str_nat (n div 10) @ [digit_chr (n mod 10)])"

declare str_nat.simps [simp del]

definition str_int :: "int \<Rightarrow> string" where
  "str_int i = (if i < 0 then CHR ''-'' # str_nat (nat (- i)) else str_nat (nat i))"

text \<open>\<open>range(n)\<close>: empty when \<open>n \<le> 0\<close>.\<close>

definition py_range :: "int \<Rightarrow> int list" where
  "py_range n = map int [0..<nat n]"

text \<open>
  \<open>xs[lo:hi]\<close>: a negative index counts from the end, and both indices are clamped to
  \<open>[0, len(xs)]\<close>; the slice is empty when the adjusted \<open>hi\<close> is not above \<open>lo\<close>.
\<close>

definition slice_index :: "nat \<Rightarrow> int \<Rightarrow> nat" where
  "slice_index n i = (if i < 0 then nat (max 0 (int n + i)) else min (nat i) n)"

definition py_slice :: "'a list \<Rightarrow> int \<Rightarrow> int \<Rightarrow> 'a list" where
  "py_slice xs lo hi =
     take (slice_index (length xs) hi - slice_index (length xs) lo)
          (drop (slice_index (length xs) lo) xs)"

text \<open>
  \<open>int(a / b)\<close> for \<open>b \<noteq> 0\<close>: the true quotient truncated towards zero. (Python computes
  the quotient as a float; for list lengths below \<open>2^53\<close> the truncation is exact.)
\<close>

definition int_truediv :: "int \<Rightarrow> int \<Rightarrow> int" where
  "int_truediv a b = sgn a * sgn b * (\<bar>a\<bar> div \<bar>b\<bar>)"

subsection \<open>Barcode loading (lines 76-79)\<close>

text \<open>
  \<open>barcodes = [x.rstrip().split("-")[0] for x in fid.readlines()]\<close> followed by
  \<open>barcodes = sorted(barcodes)\<close>. Python compares strings lexicographically by code
  point, which is the order of \<open>List_Lexorder\<close> over \<open>Char_ord\<close>.
\<close>

definition normalize_barcodes :: "string list \<Rightarrow> string list" where
  "normalize_barcodes lines = sort (map (\<lambda>x. hd (split_chr CHR ''-'' (rstrip x))) lines)"


subsection \<open>Options, the job, and the arguments of the external calls\<close>

text \<open>
  \<open>options\<close> is what \<open>parser.parse_args()\<close> returns (optparse is a library, outside this
  program); the fields are the \<open>dest\<close> names, prefixed with \<open>opt_\<close>. With no command-line
  argument it returns the declared defaults.
\<close>

record options =
  opt_out_file :: "string option"
  opt_sam_file :: "string option"
  opt_barcode_file :: "string option"
  opt_region_file :: "string option"
  opt_nproc :: int
  opt_chrom_all :: "string option"
  opt_cell_tag :: string
  opt_UMI_tag :: string
  opt_min_COUNT :: int
  opt_min_MAF :: real
  opt_min_LEN :: int
  opt_min_MAPQ :: int
  opt_max_FLAG :: int

definition default_options :: options where
  "default_options =
     \<lparr> opt_out_file = None, opt_sam_file = None, opt_barcode_file = None,
       opt_region_file = None, opt_nproc = 1, opt_chrom_all = None,
       opt_cell_tag = ''CR'', opt_UMI_tag = ''UR'', opt_min_COUNT = 20, opt_min_MAF = 0,
       opt_min_LEN = 30, opt_min_MAPQ = 20, opt_max_FLAG = 255 \<rparr>"

text \<open>What \<open>parse_vcf_file\<close> returns: the dictionary with keys pos, REF, ALT, chrom.\<close>

record vcf_RV =
  vcf_pos :: "int list"
  vcf_REF :: "string list"
  vcf_ALT :: "string list"
  vcf_chrom :: "string list"

text \<open>
  The local variables of \<open>main\<close> that every engine call receives unchanged. \<open>min_MAF\<close> is a
  float that is only passed on, never computed with.
\<close>

record common_args =
  sam_file :: path
  barcodes :: "string list option"
  cell_tag :: "string option"
  UMI_tag :: "string option"
  min_COUNT :: int
  min_MAF :: real
  min_MAPQ :: int
  max_FLAG :: int
  min_LEN :: int

text \<open>The argument tuple of \<open>pileup_regions\<close> (lines 142-144 and 152-154).\<close>

record pileup_args = common_args +
  chr_out_file :: path
  p_chrom :: string

text \<open>The argument tuple of \<open>fetch_positions\<close> (lines 174-176).\<close>

record fetch_args = common_args +
  f_chrom :: "string list"
  f_pos :: "int list"
  REF_list :: "string list"
  ALT_list :: "string list"
  out_file_tmp :: path

text \<open>
  The local variables of \<open>main\<close> at line 134, after validation: \<open>region\<close> is \<open>None\<close> when
  \<open>region_file is None\<close> and holds \<open>vcf_RV\<close> otherwise.
\<close>

record job = common_args +
  out_file :: path
  region :: "vcf_RV option"
  chrom_all :: "string list"
  nproc :: int

datatype task = PileupRegions pileup_args | FetchPositions fetch_args

fun task_out :: "task \<Rightarrow> path" where
  "task_out (PileupRegions a) = chr_out_file a"
| "task_out (FetchPositions a) = out_file_tmp a"

subsection \<open>The partition (lines 140, 150 and 161-172)\<close>

text \<open>\<open>out_file + ".temp_%s_" % key\<close>.\<close>

definition temp_name :: "path \<Rightarrow> string \<Rightarrow> path" where
  "temp_name out key = out @ ''.temp_'' @ key @ ''_''"

definition pileup_task :: "job \<Rightarrow> string \<Rightarrow> pileup_args" where
  "pileup_task j c =
     \<lparr> sam_file = sam_file j, barcodes = barcodes j, cell_tag = cell_tag j,
       UMI_tag = UMI_tag j, min_COUNT = min_COUNT j, min_MAF = min_MAF j,
       min_MAPQ = min_MAPQ j, max_FLAG = max_FLAG j, min_LEN = min_LEN j,
       chr_out_file = temp_name (out_file j) c, p_chrom = c \<rparr>"

text \<open>
  The two slice bounds of task \<open>ii\<close> over a list of length \<open>len\<close> (lines 167-172): the last
  task runs to the end of the list, every other task over one block of \<open>LEN_div\<close> indices.
\<close>

definition task_range :: "int \<Rightarrow> int \<Rightarrow> nat \<Rightarrow> int \<Rightarrow> int \<times> int" where
  "task_range LEN_div n len ii =
     (if ii = n - 1 then (LEN_div * ii, int len) else (LEN_div * ii, LEN_div * (ii + 1)))"

definition fetch_task :: "job \<Rightarrow> vcf_RV \<Rightarrow> int \<Rightarrow> int \<Rightarrow> fetch_args" where
  "fetch_task j v LEN_div ii =
     (let pos_list = vcf_pos v; chrom_list = vcf_chrom v;
          pr = task_range LEN_div (nproc j) (length pos_list) ii;
          cr = task_range LEN_div (nproc j) (length chrom_list) ii
      in \<lparr> sam_file = sam_file j, barcodes = barcodes j, cell_tag = cell_tag j,
           UMI_tag = UMI_tag j, min_COUNT = min_COUNT j, min_MAF = min_MAF j,
           min_MAPQ = min_MAPQ j, max_FLAG = max_FLAG j, min_LEN = min_LEN j,
           f_chrom = py_slice chrom_list (fst cr) (snd cr),
           f_pos = py_slice pos_list (fst pr) (snd pr),
           REF_list = vcf_REF v, ALT_list = vcf_ALT v,
           out_file_tmp = temp_name (out_file j) (str_int ii) \<rparr>)"

text \<open>\<open>LEN_div = int(len(vcf_RV["chrom"]) / nproc)\<close>, for \<open>nproc \<noteq> 0\<close>.\<close>

definition LEN_div_of :: "vcf_RV \<Rightarrow> int \<Rightarrow> int" where
  "LEN_div_of v n = int_truediv (int (length (vcf_chrom v))) n"

text \<open>The tasks of the loop \<open>for ii in range(nproc)\<close>, in the order they are submitted.\<close>

definition fetch_tasks :: "job \<Rightarrow> vcf_RV \<Rightarrow> fetch_args list" where
  "fetch_tasks j v = map (fetch_task j v (LEN_div_of v (nproc j))) (py_range (nproc j))"

text \<open>The index ranges \<open>[lo, hi)\<close> of these tasks over \<open>L\<close> candidates and \<open>n\<close> workers.\<close>

definition task_ranges :: "nat \<Rightarrow> int \<Rightarrow> (int \<times> int) list" where
  "task_ranges L n = map (task_range (int_truediv (int L) n) n L) (py_range n)"

definition range_indices :: "int \<times> int \<Rightarrow> nat list" where
  "range_indices r = [nat (fst r)..<nat (snd r)]"

subsection \<open>The world: files, and the calls \<open>main\<close> makes\<close>

text \<open>
  A file holds its lines. The trace records, in program order, every call \<open>main\<close> makes to
  something outside itself: \<open>print\<close>, \<open>os.path.isfile\<close>, \<open>os.path.isdir\<close>, \<open>open\<close>,
  \<open>parse_vcf_file\<close>, \<open>multiprocessing.Pool\<close>, a direct engine call (\<open>Call\<close>), a
  \<open>pool.apply_async\<close> submission (\<open>ApplyAsync\<close>) and \<open>merge_vcf\<close>. The last \<open>print\<close> of \<open>main\<close>
  shows the elapsed wall-clock time; its text is not modelled (\<open>PrintElapsed\<close>).
\<close>

datatype node = File "string list" | Dir

datatype event =
    Print string
  | IsFile path
  | IsDir path
  | Open path
  | ParseVcf path
  | PoolCreate int
  | Call task
  | ApplyAsync task
  | MergeVcf path "path list"
  | PrintElapsed

record world =
  fs :: "path \<rightharpoonup> node"
  trace :: "event list"

text \<open>
  Modelled from the spec: \<open>pileup_regions\<close> and \<open>fetch_positions\<close> (package
  \<open>utils.pileup_utils\<close>) are not part of the source at hand. Each task writes its own
  partial output to the output path it is given and shares no mutable state with the
  other tasks. So one engine call is described by how it ends when it does not return
  (the exception it raises, or \<open>Hang\<close>), and the lines it has written to its output path,
  if it has written the file; both are functions of the arguments of the call.
\<close>

record outcome =
  raised :: "exn option"
  written :: "string list option"

text \<open>
  The external collaborators, as parameters: \<open>parse_vcf_file\<close> and \<open>merge_vcf\<close> (package
  \<open>utils.run_utils\<close>) and the two engines. \<open>merge_vcf\<close> reads and writes files, so it is
  an arbitrary function of its arguments and the files.
\<close>

record env =
  parse_vcf_file :: "path \<Rightarrow> exn + vcf_RV"
  pileup_regions :: "pileup_args \<Rightarrow> outcome"
  fetch_positions :: "fetch_args \<Rightarrow> outcome"
  merge_vcf :: "path \<Rightarrow> path list \<Rightarrow> (path \<rightharpoonup> node) \<Rightarrow> exn option \<times> (path \<rightharpoonup> node)"

fun run_task :: "env \<Rightarrow> task \<Rightarrow> outcome" where
  "run_task E (PileupRegions a) = pileup_regions E a"
| "run_task E (FetchPositions a) = fetch_positions E a"

definition task_effect :: "env \<Rightarrow> task \<Rightarrow> (path \<rightharpoonup> node) \<Rightarrow> (path \<rightharpoonup> node)" where
  "task_effect E t f =
     (case written (run_task E t) of None \<Rightarrow> f | Some ls \<Rightarrow> f(task_out t \<mapsto> File ls))"

text \<open>Steps of \<open>main\<close>: a step returns a value or raises, and leaves a new world.\<close>

type_synonym 'a run = "world \<Rightarrow> (exn + 'a) \<times> world"

definition ret :: "'a \<Rightarrow> 'a run" where
  "ret x w = (Inr x, w)"

definition raise :: "exn \<Rightarrow> 'a run" where
  "raise e w = (Inl e, w)"

definition bnd :: "'a run \<Rightarrow> ('a \<Rightarrow> 'b run) \<Rightarrow> 'b run" where
  "bnd m f w = (case m w of (Inl e, w') \<Rightarrow> (Inl e, w') | (Inr x, w') \<Rightarrow> f x w')"

definition emit :: "event \<Rightarrow> unit run" where
  "emit e w = (Inr (), w\<lparr>trace := trace w @ [e]\<rparr>)"

definition print :: "string \<Rightarrow> unit run" where
  "print s = emit (Print s)"

definition sys_exit :: "int \<Rightarrow> 'a run" where
  "sys_exit n = raise (SystemExit n)"

definition isfile :: "path \<Rightarrow> bool run" where
  "isfile p w =
     (Inr (case fs w p of Some (File ls) \<Rightarrow> True | _ \<Rightarrow> False), w\<lparr>trace := trace w @ [IsFile p]\<rparr>)"

definition isdir :: "path \<Rightarrow> bool run" where
  "isdir p w =
     (Inr (case fs w p of Some Dir \<Rightarrow> True | _ \<Rightarrow> False), w\<lparr>trace := trace w @ [IsDir p]\<rparr>)"

text \<open>\<open>open(p, "r")\<close>, \<open>readlines()\<close>, \<open>close()\<close>.\<close>

definition readlines :: "path \<Rightarrow> string list run" where
  "readlines p w =
     (case fs w p of
        Some (File ls) \<Rightarrow> (Inr ls, w\<lparr>trace := trace w @ [Open p]\<rparr>)
      | _ \<Rightarrow> (Inl (External ''IOError''), w\<lparr>trace := trace w @ [Open p]\<rparr>))"

text \<open>\<open>os.path.dirname\<close> (posixpath).\<close>

definition dirname :: "path \<Rightarrow> path" where
  "dirname p =
     (let head = rev (dropWhile (\<lambda>c. c \<noteq> CHR ''/'') (rev p))
      in if head \<noteq> [] \<and> head \<noteq> replicate (length head) CHR ''/''
         then rev (dropWhile (\<lambda>c. c = CHR ''/'') (rev head)) else head)"

text \<open>A direct call of an engine, on the caller: an exception propagates at once.\<close>

definition call_task :: "env \<Rightarrow> task \<Rightarrow> unit run" where
  "call_task E t w =
     (let w' = w\<lparr>fs := task_effect E t (fs w), trace := trace w @ [Call t]\<rparr>
      in case raised (run_task E t) of None \<Rightarrow> (Inr (), w') | Some e \<Rightarrow> (Inl e, w'))"

text \<open>
  \<open>multiprocessing.Pool(processes=n)\<close> raises \<open>ValueError\<close> when \<open>n < 1\<close>.
\<close>

definition pool_create :: "int \<Rightarrow> unit run" where
  "pool_create n = bnd (emit (PoolCreate n)) (\<lambda>_. if n < 1 then raise ValueError else ret ())"

text \<open>
  The order in which the submitted tasks finish is the scheduler's choice, not the
  program's. \<open>sched\<close> is that choice: each entry picks, among the tasks still pending, the one
  that finishes next; when \<open>sched\<close> is used up, the rest finish in submission order.
\<close>

fun completion_order :: "nat list \<Rightarrow> 'a list \<Rightarrow> 'a list" where
  "completion_order [] pending = pending"
| "completion_order (s # sched) pending =
     (if pending = [] then []
      else let k = s mod length pending
           in pending ! k # completion_order sched (take k pending @ drop (Suc k) pending))"

text \<open>
  The worker of a pool catches the exceptions of class \<open>Exception\<close> and hands them back in
  the result handle of the task. \<open>SystemExit\<close> is not caught: the worker process ends and
  the handle of its task is never set, while the pool starts another worker for the
  tasks that remain. A task that never returns sets no handle either.
\<close>

fun handed_back :: "exn \<Rightarrow> bool" where
  "handed_back (SystemExit n) = False"
| "handed_back Hang = False"
| "handed_back e = True"

definition result_lost :: "env \<Rightarrow> task \<Rightarrow> bool" where
  "result_lost E t = (case raised (run_task E t) of None \<Rightarrow> False | Some e \<Rightarrow> \<not> handed_back e)"

text \<open>
  \<open>pool.close(); pool.join()\<close>: every submitted task runs, in completion order, and
  \<open>join\<close> waits until every result handle is set. When the result of a task is lost, the
  other tasks still run, and \<open>join\<close> never returns.
\<close>

definition pool_join :: "env \<Rightarrow> nat list \<Rightarrow> task list \<Rightarrow> unit run" where
  "pool_join E sched ts w =
     (let w' = w\<lparr>fs := fold (task_effect E) (completion_order sched ts) (fs w)\<rparr>
      in if list_ex (result_lost E) ts then (Inl Hang, w') else (Inr (), w'))"

text \<open>
  \<open>[res.get() for res in result]\<close>, reached when \<open>join\<close> has returned: the first handle
  holding an exception re-raises it.
\<close>

fun get_results :: "env \<Rightarrow> task list \<Rightarrow> unit run" where
  "get_results E [] = ret ()"
| "get_results E (t # ts) =
     (case raised (run_task E t) of Some e \<Rightarrow> raise e | None \<Rightarrow> get_results E ts)"

subsection \<open>Validation of the options (lines 62-132)\<close>

definition no_such_file :: "path \<Rightarrow> string" where
  "no_such_file p = ''Error: No such file'' @ [CHR 0x0A] @ ''    -- '' @ p"

text \<open>Lines 63-66: \<open>argv\<close> is \<open>sys.argv[1:]\<close>.\<close>

definition check_argv :: "string list \<Rightarrow> unit run" where
  "check_argv argv =
     (if length argv = 0
      then bnd (print (''Welcome to cellSNP!'' @ [CHR 0x0A])) (\<lambda>_.
           bnd (print ''use -h or --help for help on argument.'') (\<lambda>_. sys_exit 1))
      else ret ())"

text \<open>Lines 68-80.\<close>

definition load_barcodes :: "options \<Rightarrow> string list option run" where
  "load_barcodes options =
     (case opt_barcode_file options of
        None \<Rightarrow> ret None
      | Some f \<Rightarrow>
          bnd (isfile f) (\<lambda>b.
            if b = False then bnd (print (no_such_file f)) (\<lambda>_. sys_exit 1)
            else bnd (readlines f) (\<lambda>lines.
                 let bs = normalize_barcodes lines
                 in bnd (print (''[cellSNP] '' @ str_int (int (length bs))
                                @ '' effective cell barcodes are used.'')) (\<lambda>_.
                    ret (Some bs)))))"

text \<open>Lines 82-89.\<close>

definition check_sam_file :: "options \<Rightarrow> path run" where
  "check_sam_file options =
     (case opt_sam_file options of
        None \<Rightarrow> bnd (print ''Error: need samFile for sam file.'') (\<lambda>_. sys_exit 1)
      | Some f \<Rightarrow>
          bnd (isfile f) (\<lambda>b.
            if b = False then bnd (print (no_such_file f)) (\<lambda>_. sys_exit 1)
            else ret f))"

text \<open>Lines 91-98.\<close>

definition check_out_file :: "options \<Rightarrow> path run" where
  "check_out_file options =
     (case opt_out_file options of
        None \<Rightarrow>
          bnd (print ''Error: need outFile for output file path and name.'') (\<lambda>_. sys_exit 1)
      | Some f \<Rightarrow>
          bnd (isdir (dirname f)) (\<lambda>b.
            if b = False
            then bnd (print (''Error: No such directory for file'' @ [CHR 0x0A] @ '' -- '' @ f))
                     (\<lambda>_. sys_exit 1)
            else ret f))"

text \<open>The call \<open>parse_vcf_file(region_file)\<close>.\<close>

definition call_parse_vcf_file :: "env \<Rightarrow> path \<Rightarrow> vcf_RV run" where
  "call_parse_vcf_file E f w = (parse_vcf_file E f, w\<lparr>trace := trace w @ [ParseVcf f]\<rparr>)"

text \<open>
  Lines 100-112: \<open>region_file is None or region_file == "None"\<close> comes first, and only
  otherwise the path is checked and parsed.
\<close>

definition load_region :: "env \<Rightarrow> options \<Rightarrow> vcf_RV option run" where
  "load_region E options =
     (if opt_region_file options = None \<or> opt_region_file options = Some ''None''
      then ret None
      else case opt_region_file options of
        None \<Rightarrow> ret None
      | Some f \<Rightarrow>
          bnd (isfile f) (\<lambda>b.
            if b = False then bnd (print (no_such_file f)) (\<lambda>_. sys_exit 1)
            else bnd (call_parse_vcf_file E f) (\<lambda>v.
                 bnd (print (''[cellSNP] '' @ str_int (int (length (vcf_pos v)))
                             @ '' candidate variants to fetch.'')) (\<lambda>_.
                 ret (Some v)))))"

text \<open>Lines 114-121: a tag that reads NONE in any letter case is switched off.\<close>

definition tag_of :: "string \<Rightarrow> string option" where
  "tag_of s = (if upper s = ''NONE'' then None else Some s)"

text \<open>Lines 122-125.\<close>

definition chrom_all_of :: "string option \<Rightarrow> string list" where
  "chrom_all_of c =
     (case c of None \<Rightarrow> map (\<lambda>x. str_int (int x)) [1..<23] | Some s \<Rightarrow> split_chr CHR '','' s)"

definition build_job :: "env \<Rightarrow> string list \<Rightarrow> options \<Rightarrow> job run" where
  "build_job E argv options =
     bnd (check_argv argv) (\<lambda>_.
     bnd (load_barcodes options) (\<lambda>bs.
     bnd (check_sam_file options) (\<lambda>sam.
     bnd (check_out_file options) (\<lambda>out.
     bnd (load_region E options) (\<lambda>reg.
     ret \<lparr> sam_file = sam, barcodes = bs, cell_tag = tag_of (opt_cell_tag options),
           UMI_tag = tag_of (opt_UMI_tag options), min_COUNT = opt_min_COUNT options,
           min_MAF = opt_min_MAF options, min_MAPQ = opt_min_MAPQ options,
           max_FLAG = opt_max_FLAG options, min_LEN = opt_min_LEN options,
           out_file = out, region = reg, chrom_all = chrom_all_of (opt_chrom_all options),
           nproc = opt_nproc options \<rparr>)))))"

subsection \<open>Dispatch and merge (lines 134-190)\<close>

text \<open>
  Lines 149-155, the sequential loop: the temp path is appended to \<open>out_files\<close> and the
  engine is called on the caller.
\<close>

fun pileup_loop :: "env \<Rightarrow> job \<Rightarrow> string list \<Rightarrow> path list \<Rightarrow> path list run" where
  "pileup_loop E j [] out_files = ret out_files"
| "pileup_loop E j (c # cs) out_files =
     bnd (call_task E (PileupRegions (pileup_task j c))) (\<lambda>_.
     pileup_loop E j cs (out_files @ [temp_name (out_file j) c]))"

text \<open>
  Lines 139-145 and 163-177, the submission loop: for each task in turn its temp path is
  appended to \<open>out_files\<close> and the handle of \<open>pool.apply_async\<close> to \<open>result\<close>.
\<close>

fun submit_loop :: "task list \<Rightarrow> path list \<times> task list \<Rightarrow> (path list \<times> task list) run" where
  "submit_loop [] acc = ret acc"
| "submit_loop (t # ts) acc =
     bnd (emit (ApplyAsync t)) (\<lambda>_. submit_loop ts (fst acc @ [task_out t], snd acc @ [t]))"

text \<open>Lines 136-158: the whole-genome branch, pooled only when \<open>nproc > 1\<close>.\<close>

definition pileup_all :: "env \<Rightarrow> nat list \<Rightarrow> job \<Rightarrow> path list run" where
  "pileup_all E sched j =
     bnd (if nproc j > 1
          then bnd (pool_create (nproc j)) (\<lambda>_.
               bnd (submit_loop (map (\<lambda>c. PileupRegions (pileup_task j c)) (chrom_all j)) ([], []))
                 (\<lambda>acc.
               bnd (pool_join E sched (snd acc)) (\<lambda>_.
               bnd (get_results E (snd acc)) (\<lambda>_. ret (fst acc)))))
          else pileup_loop E j (chrom_all j) []) (\<lambda>out_files.
     bnd (print []) (\<lambda>_.
     bnd (print ''[cellSNP] Whole genome pileupped, now merging all variants ...'') (\<lambda>_.
     ret out_files)))"

text \<open>Lines 160-184: the targeted branch; the pool is created whatever \<open>nproc\<close> is.\<close>

definition fetch_all :: "env \<Rightarrow> nat list \<Rightarrow> job \<Rightarrow> vcf_RV \<Rightarrow> path list run" where
  "fetch_all E sched j v =
     (if nproc j = 0 then raise ZeroDivisionError
      else bnd (pool_create (nproc j)) (\<lambda>_.
           bnd (submit_loop (map FetchPositions (fetch_tasks j v)) ([], [])) (\<lambda>acc.
           bnd (pool_join E sched (snd acc)) (\<lambda>_.
           bnd (get_results E (snd acc)) (\<lambda>_.
           bnd (print []) (\<lambda>_.
           bnd (print (''[cellSNP] fetched '' @ str_int (int (length (vcf_pos v)))
                       @ '' variants, now merging temp files ... '')) (\<lambda>_.
           ret (fst acc))))))))"

text \<open>Line 186: \<open>merge_vcf(out_file, out_files)\<close>.\<close>

definition call_merge_vcf :: "env \<Rightarrow> path \<Rightarrow> path list \<Rightarrow> unit run" where
  "call_merge_vcf E out outs w =
     (let r = merge_vcf E out outs (fs w);
          w' = w\<lparr>fs := snd r, trace := trace w @ [MergeVcf out outs]\<rparr>
      in case fst r of None \<Rightarrow> (Inr (), w') | Some e \<Rightarrow> (Inl e, w'))"

text \<open>Lines 134-190: from the validated job to the end of \<open>main\<close>.\<close>

definition run_job :: "env \<Rightarrow> nat list \<Rightarrow> job \<Rightarrow> unit run" where
  "run_job E sched j =
     bnd (case region j of None \<Rightarrow> pileup_all E sched j | Some v \<Rightarrow> fetch_all E sched j v)
       (\<lambda>out_files.
     bnd (call_merge_vcf E (out_file j) out_files) (\<lambda>_. emit PrintElapsed))"

definition main :: "env \<Rightarrow> nat list \<Rightarrow> string list \<Rightarrow> options \<Rightarrow> unit run" where
  "main E sched argv options = bnd (build_job E argv options) (run_job E sched)"

subsection \<open>Notions used to state the properties\<close>

text \<open>The tasks of a job, in partition order: what the loops of lines 139-177 go through.\<close>

definition job_tasks :: "job \<Rightarrow> task list" where
  "job_tasks j =
     (case region j of
        None \<Rightarrow> map (\<lambda>c. PileupRegions (pileup_task j c)) (chrom_all j)
      | Some v \<Rightarrow> map FetchPositions (fetch_tasks j v))"


text \<open>The events a step has added to the trace.\<close>

definition new_events :: "world \<Rightarrow> world \<Rightarrow> event list" where
  "new_events w w' = drop (length (trace w)) (trace w')"

text \<open>The tasks handed to an engine, by a direct call or through the pool, in order.\<close>

fun dispatched :: "event list \<Rightarrow> task list" where
  "dispatched [] = []"
| "dispatched (Call t # es) = t # dispatched es"
| "dispatched (ApplyAsync t # es) = t # dispatched es"
| "dispatched (e # es) = dispatched es"

text \<open>The calls of \<open>merge_vcf\<close>, and the events that involve a pool.\<close>

fun merge_calls :: "event list \<Rightarrow> (path \<times> path list) list" where
  "merge_calls [] = []"
| "merge_calls (MergeVcf out outs # es) = (out, outs) # merge_calls es"
| "merge_calls (e # es) = merge_calls es"

fun pool_events :: "event list \<Rightarrow> event list" where
  "pool_events [] = []"
| "pool_events (PoolCreate n # es) = PoolCreate n # pool_events es"
| "pool_events (ApplyAsync t # es) = ApplyAsync t # pool_events es"
| "pool_events (e # es) = pool_events es"

text \<open>
  The exception of the first task of \<open>ts\<close>, in partition order, that raises, if any: it
  ends a sequential run, and a pooled run in which no result is lost. The tasks a
  sequential run reaches: all up to and including that task.
\<close>

fun first_raised :: "env \<Rightarrow> task list \<Rightarrow> exn option" where
  "first_raised E [] = None"
| "first_raised E (t # ts) =
     (case raised (run_task E t) of Some e \<Rightarrow> Some e | None \<Rightarrow> first_raised E ts)"

fun ran_prefix :: "env \<Rightarrow> task list \<Rightarrow> task list" where
  "ran_prefix E [] = []"
| "ran_prefix E (t # ts) =
     (if raised (run_task E t) = None then t # ran_prefix E ts else [t])"

text \<open>Reading a decimal numeral back: the inverse of \<open>str_nat\<close>.\<close>

definition nat_of_digits :: "string \<Rightarrow> nat" where
  "nat_of_digits s = foldl (\<lambda>a c. 10 * a + (of_char c - 48)) 0 s"

subsection \<open>A concrete job, for evaluation\<close>

text \<open>
  A directory \<open>out\<close> and an alignment file; engines that write one line naming their
  partition, where \<open>failing_env\<close> lets the pileup of chromosome 2 raise an exception of
  class \<open>Exception\<close> before it writes;
  a merge that concatenates the partial files into the final file and removes them.
\<close>

definition demo_fs :: "path \<rightharpoonup> node" where
  "demo_fs = [''out'' \<mapsto> Dir, ''in.bam'' \<mapsto> File [], ''None'' \<mapsto> File [],
              ''cand.vcf'' \<mapsto> File []]"

definition demo_world :: world where
  "demo_world = \<lparr> fs = demo_fs, trace = [] \<rparr>"

definition demo_vcf :: vcf_RV where
  "demo_vcf =
     \<lparr> vcf_pos = [101, 102, 103, 104, 105, 106, 107, 108, 109, 110],
       vcf_REF = [''A'', ''A'', ''A'', ''A'', ''A'', ''A'', ''A'', ''A'', ''A'', ''A''],
       vcf_ALT = [''G'', ''G'', ''G'', ''G'', ''G'', ''G'', ''G'', ''G'', ''G'', ''G''],
       vcf_chrom = [''1'', ''1'', ''1'', ''1'', ''2'', ''2'', ''2'', ''3'', ''3'', ''3''] \<rparr>"

definition demo_merge ::
  "path \<Rightarrow> path list \<Rightarrow> (path \<rightharpoonup> node) \<Rightarrow> exn option \<times> (path \<rightharpoonup> node)" where
  "demo_merge out outs f =
     (None, (fold (\<lambda>p g. g(p := None)) outs f)
              (out \<mapsto> File (concat (map (\<lambda>p. case f p of Some (File ls) \<Rightarrow> ls | _ \<Rightarrow> []) outs))))"

definition demo_env :: env where
  "demo_env =
     \<lparr> parse_vcf_file = (\<lambda>p. Inr demo_vcf),
       pileup_regions = (\<lambda>a. \<lparr> raised = None, written = Some [''chrom '' @ p_chrom a] \<rparr>),
       fetch_positions = (\<lambda>a. \<lparr> raised = None, written = Some (map str_int (f_pos a)) \<rparr>),
       merge_vcf = demo_merge \<rparr>"

definition failing_env :: env where
  "failing_env =
     demo_env \<lparr> pileup_regions :=
       (\<lambda>a. if p_chrom a = ''2''
            then \<lparr> raised = Some (External ''pileup failed''), written = None \<rparr>
            else \<lparr> raised = None, written = Some [''chrom '' @ p_chrom a] \<rparr>) \<rparr>"


definition demo_job :: job where
  "demo_job =
     \<lparr> sam_file = ''in.bam'', barcodes = None, cell_tag = Some ''CR'', UMI_tag = Some ''UR'',
       min_COUNT = 20, min_MAF = 0, min_MAPQ = 20, max_FLAG = 255, min_LEN = 30,
       out_file = ''out/res.vcf'', region = None, chrom_all = [''1'', ''2'', ''X''],
       nproc = 3 \<rparr>"

definition demo_options :: options where
  "demo_options =
     default_options \<lparr> opt_out_file := Some ''out/res.vcf'', opt_sam_file := Some ''in.bam'' \<rparr>"

text \<open>Four chromosomes on four workers; with \<open>failing_env\<close> the second task of four raises.\<close>

definition demo_job4 :: job where
  "demo_job4 = demo_job \<lparr> chrom_all := [''1'', ''2'', ''3'', ''4''], nproc := 4 \<rparr>"

text \<open>The targeted job on one worker.\<close>

definition demo_job_targeted :: job where
  "demo_job_targeted = demo_job \<lparr> region := Some demo_vcf, nproc := 1 \<rparr>"

text \<open>The whole-genome job on one worker.\<close>

definition demo_job_seq :: job where
  "demo_job_seq = demo_job \<lparr> nproc := 1 \<rparr>"

section \<open>Properties\<close>

subsection \<open>Barcodes\<close>

lemma split_from_nonempty: "split_from sep cur s \<noteq> []"
  by (induction s arbitrary: cur) auto

lemma hd_split_from: "hd (split_from sep cur s) = cur @ takeWhile (\<lambda>c. c \<noteq> sep) s"
  by (induction s arbitrary: cur) auto

lemma split_chr_nonempty: "split_chr sep s \<noteq> []"
  by (simp add: split_chr_def split_from_nonempty)

lemma hd_split_chr: "hd (split_chr sep s) = takeWhile (\<lambda>c. c \<noteq> sep) s"
  by (simp add: split_chr_def hd_split_from)

text \<open>
  Claim C3, as amended. For every barcode file, the barcodes are the raw lines stripped
  of trailing whitespace and cut before their first \<open>-\<close>, sorted; duplicates are kept, so
  there are as many barcodes as lines. The lines \<open>AAA-1\<close>, \<open>BBB-2\<close>, \<open>AAA-1\<close> give \<open>AAA\<close>, \<open>AAA\<close>,
  \<open>BBB\<close>.
\<close>

theorem barcodes_sorted_keep_duplicates:
  "sorted (normalize_barcodes lines)
   \<and> mset (normalize_barcodes lines)
       = mset (map (\<lambda>x. takeWhile (\<lambda>c. c \<noteq> CHR ''-'') (rstrip x)) lines)
   \<and> length (normalize_barcodes lines) = length lines
   \<and> normalize_barcodes [''AAA-1'', ''BBB-2'', ''AAA-1''] = [''AAA'', ''AAA'', ''BBB'']"
proof -
  have ex: "normalize_barcodes [''AAA-1'', ''BBB-2'', ''AAA-1''] = [''AAA'', ''AAA'', ''BBB'']"
    by code_simp
  show ?thesis
    unfolding ex by (simp add: normalize_barcodes_def hd_split_chr)
qed

theorem barcodes_sorted_keep_duplicates_witness:
  "sorted (normalize_barcodes [''AAA-1'' @ [CHR 0x0A], ''BBB-2'' @ [CHR 0x0A], ''AAA-1'' @ [CHR 0x0A]])
   \<and> normalize_barcodes [''AAA-1'' @ [CHR 0x0A], ''BBB-2'' @ [CHR 0x0A], ''AAA-1'' @ [CHR 0x0A]]
       = [''AAA'', ''AAA'', ''BBB'']"
proof -
  have "normalize_barcodes [''AAA-1'' @ [CHR 0x0A], ''BBB-2'' @ [CHR 0x0A], ''AAA-1'' @ [CHR 0x0A]]
        = [''AAA'', ''AAA'', ''BBB'']"
    by code_simp
  with barcodes_sorted_keep_duplicates
         [of "[''AAA-1'' @ [CHR 0x0A], ''BBB-2'' @ [CHR 0x0A], ''AAA-1'' @ [CHR 0x0A]]"]
  show ?thesis by simp
qed

text \<open>
  Claim C3 as stated fails: the barcodes are not deduplicated. The lines \<open>AAA-1\<close>, \<open>BBB-2\<close>,
  \<open>AAA-1\<close> do not give \<open>AAA\<close>, \<open>BBB\<close>.
\<close>

theorem barcodes_not_deduplicated:
  "normalize_barcodes [''AAA-1'', ''BBB-2'', ''AAA-1''] \<noteq> [''AAA'', ''BBB'']"
  by code_simp

subsection \<open>Slices, blocks and temp names\<close>

lemma py_range_last: "1 \<le> n \<Longrightarrow> py_range n = map int [0..<nat n - 1] @ [n - 1]"
proof -
  assume n: "1 \<le> n"
  then have "nat n = Suc (nat n - 1)" by simp
  then have "[0..<nat n] = [0..<nat n - 1] @ [nat n - 1]"
    by (metis upt_Suc_append zero_le)
  with n show ?thesis by (simp add: py_range_def)
qed

lemma int_truediv_pos: "0 \<le> a \<Longrightarrow> 0 < b \<Longrightarrow> int_truediv a b = a div b"
  by (cases "a = 0") (simp_all add: int_truediv_def)

lemma py_slice_nonneg:
  "0 \<le> lo \<Longrightarrow> 0 \<le> hi \<Longrightarrow> py_slice xs lo hi = take (nat hi - nat lo) (drop (nat lo) xs)"
  by (auto simp: py_slice_def slice_index_def min_def)

lemma py_slice_nat: "py_slice xs (int a) (int c) = take (c - a) (drop a xs)"
  by (simp add: py_slice_nonneg)

lemma py_slice_to_end:
  "0 \<le> lo \<Longrightarrow> py_slice xs lo (int (length xs)) = drop (nat lo) xs"
  by (simp add: py_slice_nonneg)

lemma concat_take_blocks:
  "concat (map (\<lambda>i. take b (drop (b * i) xs)) [0..<k]) = take (b * k) xs"
proof (induction k)
  case 0
  show ?case by simp
next
  case (Suc k)
  have "take (b * k + b) xs = take (b * k) xs @ take b (drop (b * k) xs)"
    by (rule take_add)
  with Suc show ?case by (simp add: add.commute)
qed

lemma concat_upt_blocks:
  "concat (map (\<lambda>i. [b * i..<b * Suc i]) [0..<k]) = [0..<b * k]"
proof (induction k)
  case 0
  show ?case by simp
next
  case (Suc k)
  have "[0..<b * k] @ [b * k..<b * k + b] = [0..<b * k + b]"
    by (metis le_add1 upt_add_eq_append zero_le)
  with Suc show ?case by (simp add: add.commute)
qed


lemma block_times_le: "0 < m \<Longrightarrow> (L div m) * (m - 1) \<le> (L::nat)"
proof -
  assume "0 < m"
  have "(L div m) * (m - 1) \<le> (L div m) * m" by simp
  also have "\<dots> \<le> L" by simp
  finally show ?thesis .
qed

lemma int_truediv_nat: "1 \<le> n \<Longrightarrow> int_truediv (int L) n = int (L div nat n)"
  by (simp add: int_truediv_pos zdiv_int)

lemma task_range_inner:
  "i < nat n - 1 \<Longrightarrow> task_range (int b) n len (int i) = (int (b * i), int (b * Suc i))"
  by (auto simp: task_range_def algebra_simps)

lemma task_range_last:
  "1 \<le> n \<Longrightarrow> task_range (int b) n len (n - 1) = (int (b * (nat n - 1)), int len)"
  by (simp add: task_range_def nat_diff_distrib')

lemma map_task_range:
  assumes "1 \<le> n"
  shows "map (task_range (int b) n len) (py_range n)
         = map (\<lambda>i. (int (b * i), int (b * Suc i))) [0..<nat n - 1]
           @ [(int (b * (nat n - 1)), int len)]"
  using assms by (simp add: py_range_last task_range_inner task_range_last)

lemma task_ranges_eq:
  assumes "1 \<le> n"
  shows "task_ranges L n
         = map (\<lambda>i. (int (L div nat n * i), int (L div nat n * Suc i))) [0..<nat n - 1]
           @ [(int (L div nat n * (nat n - 1)), int L)]"
  using assms by (simp add: task_ranges_def int_truediv_nat map_task_range)

lemma range_indices_nat: "range_indices (int a, int c) = [a..<c]"
  by (simp add: range_indices_def)

lemma concat_task_ranges:
  assumes "1 \<le> n"
  shows "concat (map range_indices (task_ranges L n)) = [0..<L]"
proof -
  let ?b = "L div nat n"
  have le: "?b * (nat n - 1) \<le> L" using assms block_times_le [of "nat n" L] by simp
  have "concat (map range_indices (task_ranges L n))
        = concat (map (\<lambda>i. [?b * i..<?b * Suc i]) [0..<nat n - 1]) @ [?b * (nat n - 1)..<L]"
    by (simp only: task_ranges_eq [OF assms] map_append map_map o_def range_indices_nat
          list.map concat_append concat.simps append_Nil2)
  also have "\<dots> = [0..<?b * (nat n - 1)] @ [?b * (nat n - 1)..<L]"
    by (simp only: concat_upt_blocks)
  also have "\<dots> = [0..<L]"
    using le by (metis le_add_diff_inverse upt_add_eq_append zero_le)
  finally show ?thesis .
qed

lemma slices_of_ranges:
  assumes "1 \<le> n"
  shows "map (\<lambda>r. py_slice xs (fst r) (snd r)) (map (task_range (int b) n (length xs)) (py_range n))
         = map (\<lambda>i. take b (drop (b * i) xs)) [0..<nat n - 1] @ [drop (b * (nat n - 1)) xs]"
proof -
  have inner: "\<And>i. py_slice xs (int (b * i)) (int (b * Suc i)) = take b (drop (b * i) xs)"
    by (simp only: py_slice_nat) simp
  have last: "py_slice xs (int (b * (nat n - 1))) (int (length xs)) = drop (b * (nat n - 1)) xs"
    by (simp only: py_slice_nat) simp
  show ?thesis
    by (simp only: map_task_range [OF assms] map_append map_map o_def fst_conv snd_conv
          inner last list.map)
qed

lemma concat_slices:
  assumes "1 \<le> n"
  shows "concat (map (\<lambda>r. py_slice xs (fst r) (snd r))
                     (map (task_range (int b) n (length xs)) (py_range n))) = xs"
  using assms by (simp only: slices_of_ranges concat_append concat_take_blocks) simp

lemma f_pos_fetch_tasks:
  "map f_pos (fetch_tasks j v)
   = map (\<lambda>r. py_slice (vcf_pos v) (fst r) (snd r))
         (map (task_range (LEN_div_of v (nproc j)) (nproc j) (length (vcf_pos v))) (py_range (nproc j)))"
  by (simp add: fetch_tasks_def fetch_task_def Let_def o_def)

lemma f_chrom_fetch_tasks:
  "map f_chrom (fetch_tasks j v)
   = map (\<lambda>r. py_slice (vcf_chrom v) (fst r) (snd r))
         (map (task_range (LEN_div_of v (nproc j)) (nproc j) (length (vcf_chrom v))) (py_range (nproc j)))"
  by (simp add: fetch_tasks_def fetch_task_def Let_def o_def)

lemma LEN_div_of_nat: "1 \<le> n \<Longrightarrow> LEN_div_of v n = int (length (vcf_chrom v) div nat n)"
  by (simp add: LEN_div_of_def int_truediv_nat)

text \<open>
  Claim C1. In the targeted branch, for every number of candidates \<open>L\<close> and every
  \<open>nproc \<ge> 1\<close>, the index ranges of the tasks, concatenated in task order, are exactly
  \<open>[0, L)\<close>: every index once, none left out. There are \<open>nproc\<close> tasks, each receives the
  slice of its range, and the slices concatenated give back the candidate lists.
\<close>

theorem partition_covers_each_index_once:
  assumes "1 \<le> nproc j"
  shows "concat (map range_indices (task_ranges L (nproc j))) = [0..<L]
       \<and> distinct (concat (map range_indices (task_ranges L (nproc j))))
       \<and> length (fetch_tasks j v) = nat (nproc j)
       \<and> map f_chrom (fetch_tasks j v)
           = map (\<lambda>r. py_slice (vcf_chrom v) (fst r) (snd r))
                 (task_ranges (length (vcf_chrom v)) (nproc j))
       \<and> concat (map f_chrom (fetch_tasks j v)) = vcf_chrom v
       \<and> concat (map f_pos (fetch_tasks j v)) = vcf_pos v"
proof -
  have a: "concat (map range_indices (task_ranges L (nproc j))) = [0..<L]"
    using assms by (rule concat_task_ranges)
  have b: "distinct (concat (map range_indices (task_ranges L (nproc j))))"
    by (simp only: a distinct_upt)
  have c: "length (fetch_tasks j v) = nat (nproc j)"
    by (simp add: fetch_tasks_def py_range_def)
  have d: "map f_chrom (fetch_tasks j v)
           = map (\<lambda>r. py_slice (vcf_chrom v) (fst r) (snd r))
                 (task_ranges (length (vcf_chrom v)) (nproc j))"
    by (simp only: f_chrom_fetch_tasks task_ranges_def LEN_div_of_def)
  have e: "concat (map f_chrom (fetch_tasks j v)) = vcf_chrom v"
    using assms by (simp only: f_chrom_fetch_tasks LEN_div_of_nat concat_slices)
  have f: "concat (map f_pos (fetch_tasks j v)) = vcf_pos v"
    using assms by (simp only: f_pos_fetch_tasks LEN_div_of_nat concat_slices)
  from a b c d e f show ?thesis by blast
qed

theorem partition_covers_each_index_once_witness:
  "1 \<le> nproc demo_job
   \<and> concat (map range_indices (task_ranges 10 (nproc demo_job))) = [0..<10]
   \<and> length (fetch_tasks demo_job demo_vcf) = 3
   \<and> concat (map f_pos (fetch_tasks demo_job demo_vcf)) = vcf_pos demo_vcf
   \<and> map f_pos (fetch_tasks demo_job demo_vcf)
       = [[101, 102, 103], [104, 105, 106], [107, 108, 109, 110]]"
proof -
  have h: "1 \<le> nproc demo_job" by (simp add: demo_job_def)
  have s: "map f_pos (fetch_tasks demo_job demo_vcf)
           = [[101, 102, 103], [104, 105, 106], [107, 108, 109, 110]]"
    by code_simp
  have n: "nat (nproc demo_job) = 3" by (simp add: demo_job_def)
  from partition_covers_each_index_once [OF h, of 10 demo_vcf] h s n show ?thesis by simp
qed

lemma of_char_digit: "d < 10 \<Longrightarrow> of_char (digit_chr d) = (48 + d :: nat)"
  by (simp add: digit_chr_def)

lemma nat_of_digits_str_nat: "nat_of_digits (str_nat n) = n"
proof (induction n rule: str_nat.induct)
  case (1 n)
  show ?case
  proof (cases "n < 10")
    case True
    then show ?thesis
      by (subst str_nat.simps) (simp add: nat_of_digits_def of_char_digit)
  next
    case False
    have "nat_of_digits (str_nat n) = 10 * nat_of_digits (str_nat (n div 10)) + n mod 10"
      using False by (subst str_nat.simps) (simp add: nat_of_digits_def of_char_digit)
    with 1 False show ?thesis by simp
  qed
qed

lemma str_nat_inj: "str_nat m = str_nat n \<Longrightarrow> m = n"
  by (metis nat_of_digits_str_nat)

lemma str_int_inj_on_range: "inj_on str_int (set (py_range n))"
  by (rule inj_onI) (auto simp: py_range_def str_int_def dest: str_nat_inj)

lemma temp_name_inj: "temp_name out k = temp_name out k' \<Longrightarrow> k = k'"
  by (simp add: temp_name_def)

lemma distinct_py_range: "distinct (py_range n)"
  by (simp add: py_range_def distinct_map inj_on_def)

lemma out_file_tmp_fetch_tasks:
  "map out_file_tmp (fetch_tasks j v) = map (\<lambda>ii. temp_name (out_file j) (str_int ii)) (py_range (nproc j))"
  by (simp add: fetch_tasks_def fetch_task_def Let_def o_def)

lemma distinct_fetch_out: "distinct (map out_file_tmp (fetch_tasks j v))"
proof -
  have "inj_on (\<lambda>ii. temp_name (out_file j) (str_int ii)) (set (py_range (nproc j)))"
    using str_int_inj_on_range [of "nproc j"]
    by (auto simp: inj_on_def dest!: temp_name_inj)
  then show ?thesis
    by (simp only: out_file_tmp_fetch_tasks distinct_map distinct_py_range simp_thms)
qed

lemma distinct_pileup_out:
  "distinct cs \<Longrightarrow> distinct (map (\<lambda>c. chr_out_file (pileup_task j c)) cs)"
  by (auto simp: distinct_map inj_on_def pileup_task_def dest: temp_name_inj)

text \<open>
  Claim C7. When the chromosome list has no duplicate, the temp paths of the whole-genome
  tasks are pairwise distinct; the temp paths of the targeted tasks are always pairwise
  distinct; and each path is the final output path followed by \<open>.temp_\<close>, the key and \<open>_\<close>,
  the key being the chromosome name or the decimal task index counted from zero.
\<close>

theorem temp_paths_distinct_and_derived:
  assumes "distinct (chrom_all j)"
  shows "distinct (map (\<lambda>c. chr_out_file (pileup_task j c)) (chrom_all j))
       \<and> map (\<lambda>c. chr_out_file (pileup_task j c)) (chrom_all j)
           = map (\<lambda>c. out_file j @ ''.temp_'' @ c @ ''_'') (chrom_all j)
       \<and> distinct (map out_file_tmp (fetch_tasks j v))
       \<and> map out_file_tmp (fetch_tasks j v)
           = map (\<lambda>ii. out_file j @ ''.temp_'' @ str_int ii @ ''_'') (py_range (nproc j))
       \<and> str_int 0 = ''0'' \<and> str_int 7 = ''7'' \<and> str_int 10 = ''10'' \<and> str_int 21 = ''21''"
proof -
  have a: "distinct (map (\<lambda>c. chr_out_file (pileup_task j c)) (chrom_all j))"
    using assms by (rule distinct_pileup_out)
  have b: "map (\<lambda>c. chr_out_file (pileup_task j c)) (chrom_all j)
           = map (\<lambda>c. out_file j @ ''.temp_'' @ c @ ''_'') (chrom_all j)"
    by (simp add: pileup_task_def temp_name_def)
  have c: "distinct (map out_file_tmp (fetch_tasks j v))"
    by (rule distinct_fetch_out)
  have d: "map out_file_tmp (fetch_tasks j v)
           = map (\<lambda>ii. out_file j @ ''.temp_'' @ str_int ii @ ''_'') (py_range (nproc j))"
    by (simp add: out_file_tmp_fetch_tasks temp_name_def)
  have e: "str_int 0 = ''0'' \<and> str_int 7 = ''7'' \<and> str_int 10 = ''10'' \<and> str_int 21 = ''21''"
    by code_simp
  from a b c d e show ?thesis by blast
qed

theorem temp_paths_distinct_and_derived_witness:
  "distinct (chrom_all demo_job)
   \<and> distinct (map (\<lambda>c. chr_out_file (pileup_task demo_job c)) (chrom_all demo_job))
   \<and> map (\<lambda>c. chr_out_file (pileup_task demo_job c)) (chrom_all demo_job)
       = [''out/res.vcf.temp_1_'', ''out/res.vcf.temp_2_'', ''out/res.vcf.temp_X_'']
   \<and> map out_file_tmp (fetch_tasks demo_job demo_vcf)
       = [''out/res.vcf.temp_0_'', ''out/res.vcf.temp_1_'', ''out/res.vcf.temp_2_'']"
proof -
  have h: "distinct (chrom_all demo_job)" by (simp add: demo_job_def)
  have a: "map (\<lambda>c. chr_out_file (pileup_task demo_job c)) (chrom_all demo_job)
           = [''out/res.vcf.temp_1_'', ''out/res.vcf.temp_2_'', ''out/res.vcf.temp_X_'']"
    by (simp add: demo_job_def pileup_task_def temp_name_def)
  have b: "map out_file_tmp (fetch_tasks demo_job demo_vcf)
           = [''out/res.vcf.temp_0_'', ''out/res.vcf.temp_1_'', ''out/res.vcf.temp_2_'']"
    by code_simp
  from temp_paths_distinct_and_derived [OF h, of demo_vcf]
  have "distinct (map (\<lambda>c. chr_out_file (pileup_task demo_job c)) (chrom_all demo_job))"
    by (rule conjunct1)
  with h a b show ?thesis by (simp only: simp_thms)
qed







subsection \<open>Steps of \<open>main\<close>\<close>

lemma bnd_ret: "bnd (ret x) f = f x"
  by (rule ext) (simp add: bnd_def ret_def)

lemma bnd_raise: "bnd (raise e) f = raise e"
  by (rule ext) (simp add: bnd_def raise_def)

lemma bnd_emit: "bnd (emit e) f w = f () (w\<lparr>trace := trace w @ [e]\<rparr>)"
  by (simp add: bnd_def emit_def)

lemma bnd_assoc: "bnd (bnd m f) g = bnd m (\<lambda>x. bnd (f x) g)"
  by (rule ext) (simp add: bnd_def split: prod.splits sum.splits)

lemma load_region_None_string:
  "load_region E (options\<lparr>opt_region_file := Some ''None''\<rparr>) w = (Inr None, w)"
  by (simp add: load_region_def ret_def)

lemma load_region_None:
  "load_region E (options\<lparr>opt_region_file := None\<rparr>) w = (Inr None, w)"
  by (simp add: load_region_def ret_def)

lemma build_job_region_file_irrelevant:
  "build_job E argv (options\<lparr>opt_region_file := Some ''None''\<rparr>)
   = build_job E argv (options\<lparr>opt_region_file := None\<rparr>)"
  by (simp add: build_job_def load_barcodes_def check_sam_file_def check_out_file_def
        load_region_def)

lemma build_job_region_None:
  assumes "fst (build_job E argv (options\<lparr>opt_region_file := None\<rparr>) w) = Inr j"
  shows "region j = None"
proof -
  have lr: "load_region E (options\<lparr>opt_region_file := None\<rparr>) = ret None"
    by (rule ext) (simp add: load_region_None ret_def)
  from assms show ?thesis
    unfolding build_job_def lr bnd_ret
    by (auto simp: bnd_def ret_def split: prod.splits sum.splits)
qed

text \<open>
  Claim C9. When the candidate-variant file is given as the string \<open>None\<close>, \<open>main\<close> behaves
  exactly as when none is given: the step of lines 100-112 returns \<open>None\<close> and leaves the
  world as it is (no existence check of the path, no call of the parser), the whole run
  is the run without the option, and a job that passes validation has no region, so it
  runs the whole-genome branch.
\<close>

theorem region_file_None_string:
  "load_region E (options\<lparr>opt_region_file := Some ''None''\<rparr>) w = (Inr None, w)
   \<and> main E sched argv (options\<lparr>opt_region_file := Some ''None''\<rparr>) w
       = main E sched argv (options\<lparr>opt_region_file := None\<rparr>) w
   \<and> (\<forall>j. fst (build_job E argv (options\<lparr>opt_region_file := Some ''None''\<rparr>) w) = Inr j
          \<longrightarrow> region j = None
              \<and> run_job E sched j = bnd (pileup_all E sched j) (\<lambda>out_files.
                   bnd (call_merge_vcf E (out_file j) out_files) (\<lambda>_. emit PrintElapsed)))"
proof -
  have a: "load_region E (options\<lparr>opt_region_file := Some ''None''\<rparr>) w = (Inr None, w)"
    by (rule load_region_None_string)
  have b: "main E sched argv (options\<lparr>opt_region_file := Some ''None''\<rparr>) w
           = main E sched argv (options\<lparr>opt_region_file := None\<rparr>) w"
    by (simp only: main_def build_job_region_file_irrelevant)
  have c: "region j = None
           \<and> run_job E sched j = bnd (pileup_all E sched j) (\<lambda>out_files.
                bnd (call_merge_vcf E (out_file j) out_files) (\<lambda>_. emit PrintElapsed))"
    if "fst (build_job E argv (options\<lparr>opt_region_file := Some ''None''\<rparr>) w) = Inr j" for j
  proof -
    from that have "region j = None"
      by (simp only: build_job_region_file_irrelevant build_job_region_None)
    then show ?thesis by (simp add: run_job_def)
  qed
  from a b c show ?thesis by blast
qed

theorem region_file_None_string_witness:
  "fst (build_job demo_env [''-R'', ''None''] (demo_options\<lparr>opt_region_file := Some ''None''\<rparr>)
          demo_world)
     = Inr (demo_job\<lparr>chrom_all := chrom_all_of None, nproc := 1\<rparr>)
   \<and> region (demo_job\<lparr>chrom_all := chrom_all_of None, nproc := 1\<rparr>) = None
   \<and> demo_fs ''None'' = Some (File [])
   \<and> trace (snd (build_job demo_env [''-R'', ''None'']
                    (demo_options\<lparr>opt_region_file := Some ''None''\<rparr>) demo_world))
       = [IsFile ''in.bam'', IsDir ''out'']"
proof -
  have t: "tag_of ''CR'' = Some ''CR''" "tag_of ''UR'' = Some ''UR''"
    by code_simp+
  have d: "dirname ''out/res.vcf'' = ''out''"
    by code_simp
  have b: "build_job demo_env [''-R'', ''None''] (demo_options\<lparr>opt_region_file := Some ''None''\<rparr>)
             demo_world
           = (Inr (demo_job\<lparr>chrom_all := chrom_all_of None, nproc := 1\<rparr>),
              demo_world\<lparr>trace := [IsFile ''in.bam'', IsDir ''out'']\<rparr>)"
    by (simp add: build_job_def check_argv_def load_barcodes_def check_sam_file_def
          check_out_file_def load_region_def bnd_def ret_def isfile_def isdir_def d t
          demo_options_def default_options_def demo_world_def demo_fs_def demo_job_def)
  from region_file_None_string
         [of demo_env demo_options demo_world "[]" "[''-R'', ''None'']"]
  have "region (demo_job\<lparr>chrom_all := chrom_all_of None, nproc := 1\<rparr>) = None"
    using b by simp
  then show ?thesis using b by (simp add: demo_fs_def demo_world_def)
qed

text \<open>
  Claim C10. With no command-line argument, \<open>main\<close> prints the welcome line and the help
  hint and exits with status 1; the two prints are all it does: no check of a path, no
  file read, no task, no merge.
\<close>

theorem no_arguments_exit:
  "main E sched [] options w
   = (Inl (SystemExit 1),
      w\<lparr>trace := trace w @ [Print (''Welcome to cellSNP!'' @ [CHR 0x0A]),
                             Print ''use -h or --help for help on argument.'']\<rparr>)"
  by (simp add: main_def build_job_def check_argv_def bnd_def print_def emit_def sys_exit_def
        raise_def)

theorem no_arguments_exit_witness:
  "fst (main demo_env [] [] default_options demo_world) = Inl (SystemExit 1)
   \<and> trace (snd (main demo_env [] [] default_options demo_world))
       = [Print (''Welcome to cellSNP!'' @ [CHR 0x0A]),
          Print ''use -h or --help for help on argument.'']
   \<and> fs (snd (main demo_env [] [] default_options demo_world)) = demo_fs"
  using no_arguments_exit [of demo_env "[]" default_options demo_world]
  by (simp add: demo_world_def)

subsection \<open>The pool and the loops\<close>

lemma submit_loop_eq:
  "submit_loop ts acc w
   = (Inr (fst acc @ map task_out ts, snd acc @ ts), w\<lparr>trace := trace w @ map ApplyAsync ts\<rparr>)"
proof (induction ts arbitrary: acc w)
  case Nil
  show ?case by (simp add: ret_def)
next
  case (Cons t ts)
  show ?case by (simp add: bnd_emit Cons)
qed

lemma get_results_eq:
  "get_results E ts w = (case first_raised E ts of None \<Rightarrow> (Inr (), w) | Some e \<Rightarrow> (Inl e, w))"
  by (induction ts) (simp_all add: ret_def raise_def split: option.splits)

lemma mset_completion_order: "mset (completion_order sched ts) = mset ts"
proof (induction sched arbitrary: ts)
  case Nil
  show ?case by simp
next
  case (Cons s sched)
  show ?case
  proof (cases "ts = []")
    case True
    then show ?thesis by simp
  next
    case False
    let ?k = "s mod length ts"
    have k: "?k < length ts" using False by simp
    have "mset ts = mset (take ?k ts @ ts ! ?k # drop (Suc ?k) ts)"
      using id_take_nth_drop [OF k] by simp
    then show ?thesis using False by (simp add: Cons Let_def)
  qed
qed

lemma task_effect_commute:
  assumes "task_out t = task_out t' \<Longrightarrow> t = t'"
  shows "task_effect E t \<circ> task_effect E t' = task_effect E t' \<circ> task_effect E t"
proof (cases "t = t'")
  case True
  then show ?thesis by simp
next
  case False
  with assms have "task_out t \<noteq> task_out t'" by blast
  then show ?thesis
    by (auto simp: task_effect_def fun_eq_iff split: option.splits)
qed

lemma fold_task_effect_perm:
  assumes "inj_on task_out (set ts)" "mset ts' = mset ts"
  shows "fold (task_effect E) ts' = fold (task_effect E) ts"
proof (rule fold_multiset_equiv [OF _ assms(2)])
  fix x y
  assume "x \<in> set ts'" "y \<in> set ts'"
  then have "x \<in> set ts" "y \<in> set ts"
    using assms(2) by (metis set_mset_mset)+
  with assms(1) have "task_out x = task_out y \<Longrightarrow> x = y"
    by (simp add: inj_on_def)
  then show "task_effect E x \<circ> task_effect E y = task_effect E y \<circ> task_effect E x"
    by (rule task_effect_commute)
qed

lemma pool_join_schedule_free:
  assumes "inj_on task_out (set ts)"
  shows "pool_join E sched ts w
         = (if list_ex (result_lost E) ts
            then (Inl Hang, w\<lparr>fs := fold (task_effect E) ts (fs w)\<rparr>)
            else (Inr (), w\<lparr>fs := fold (task_effect E) ts (fs w)\<rparr>))"
  by (simp add: pool_join_def Let_def fold_task_effect_perm [OF assms mset_completion_order])

lemma lost_first_raised: "list_ex (result_lost E) ts \<Longrightarrow> first_raised E ts \<noteq> None"
  by (induction ts) (auto simp: result_lost_def split: option.splits)

lemma no_raise_no_lost: "first_raised E ts = None \<Longrightarrow> \<not> list_ex (result_lost E) ts"
  using lost_first_raised by blast



lemma inj_on_task_out_job_tasks: "inj_on task_out (set (job_tasks j))"
proof (cases "region j")
  case None
  then show ?thesis
    by (auto simp: job_tasks_def inj_on_def pileup_task_def dest: temp_name_inj)
next
  case (Some v)
  have "fetch_task j v b x = fetch_task j v b y"
    if "x \<in> set (py_range (nproc j))" "y \<in> set (py_range (nproc j))"
       "out_file_tmp (fetch_task j v b x) = out_file_tmp (fetch_task j v b y)" for x y b
  proof -
    from that(3) have "str_int x = str_int y"
      by (auto simp: fetch_task_def Let_def dest: temp_name_inj)
    with that(1,2) have "x = y"
      using str_int_inj_on_range [of "nproc j"] by (simp add: inj_on_def)
    then show ?thesis by simp
  qed
  with Some show ?thesis
    by (auto simp: job_tasks_def inj_on_def fetch_tasks_def)
qed

lemma pileup_loop_eq:
  "pileup_loop E j cs outs w
   = ((case first_raised E (map (\<lambda>c. PileupRegions (pileup_task j c)) cs) of
         None \<Rightarrow> Inr (outs @ map (\<lambda>c. temp_name (out_file j) c) cs)
       | Some e \<Rightarrow> Inl e),
      w\<lparr>fs := fold (task_effect E) (ran_prefix E (map (\<lambda>c. PileupRegions (pileup_task j c)) cs))
                 (fs w),
        trace := trace w @ map Call (ran_prefix E (map (\<lambda>c. PileupRegions (pileup_task j c)) cs))\<rparr>)"
proof (induction cs arbitrary: outs w)
  case Nil
  show ?case by (simp add: ret_def)
next
  case (Cons c cs)
  show ?case
    by (simp add: bnd_def call_task_def Let_def Cons split: option.splits)
qed

lemma merge_step_eq:
  "bnd (call_merge_vcf E out outs) (\<lambda>_. emit PrintElapsed) w
   = (case fst (merge_vcf E out outs (fs w)) of
        None \<Rightarrow> (Inr (), w\<lparr>fs := snd (merge_vcf E out outs (fs w)),
                          trace := trace w @ [MergeVcf out outs, PrintElapsed]\<rparr>)
      | Some e \<Rightarrow> (Inl e, w\<lparr>fs := snd (merge_vcf E out outs (fs w)),
                           trace := trace w @ [MergeVcf out outs]\<rparr>))"
  by (simp add: bnd_def call_merge_vcf_def Let_def emit_def split: option.splits)

lemma chr_out_file_pileup_task: "chr_out_file (pileup_task j c) = temp_name (out_file j) c"
  by (simp add: pileup_task_def)

lemma run_job_sequential:
  assumes "region j = None" "\<not> 1 < nproc j"
  shows "run_job E sched j w
         = (case first_raised E (job_tasks j) of
              Some e \<Rightarrow>
                (Inl e, w\<lparr>fs := fold (task_effect E) (ran_prefix E (job_tasks j)) (fs w),
                          trace := trace w @ map Call (ran_prefix E (job_tasks j))\<rparr>)
            | None \<Rightarrow>
                bnd (call_merge_vcf E (out_file j) (map task_out (job_tasks j)))
                    (\<lambda>_. emit PrintElapsed)
                    (w\<lparr>fs := fold (task_effect E) (ran_prefix E (job_tasks j)) (fs w),
                       trace := trace w @ map Call (ran_prefix E (job_tasks j))
                                @ [Print [],
                                   Print ''[cellSNP] Whole genome pileupped, now merging all variants ...'']\<rparr>))"
  using assms
  by (simp add: run_job_def pileup_all_def job_tasks_def bnd_def pileup_loop_eq print_def
        emit_def ret_def o_def chr_out_file_pileup_task split: option.splits)

lemma run_job_pileup_pooled:
  assumes "region j = None" "1 < nproc j"
  shows "run_job E sched j w
         = (if list_ex (result_lost E) (job_tasks j)
            then (Inl Hang,
                  w\<lparr>fs := fold (task_effect E) (job_tasks j) (fs w),
                    trace := trace w @ PoolCreate (nproc j) # map ApplyAsync (job_tasks j)\<rparr>)
            else (case first_raised E (job_tasks j) of
              Some e \<Rightarrow>
                (Inl e, w\<lparr>fs := fold (task_effect E) (job_tasks j) (fs w),
                          trace := trace w @ PoolCreate (nproc j) # map ApplyAsync (job_tasks j)\<rparr>)
            | None \<Rightarrow>
                bnd (call_merge_vcf E (out_file j) (map task_out (job_tasks j)))
                    (\<lambda>_. emit PrintElapsed)
                    (w\<lparr>fs := fold (task_effect E) (job_tasks j) (fs w),
                       trace := trace w @ PoolCreate (nproc j) # map ApplyAsync (job_tasks j)
                                @ [Print [],
                                   Print ''[cellSNP] Whole genome pileupped, now merging all variants ...'']\<rparr>)))"
proof -
  have inj: "inj_on task_out (set (map (\<lambda>c. PileupRegions (pileup_task j c)) (chrom_all j)))"
    using inj_on_task_out_job_tasks [of j] assms(1) by (simp add: job_tasks_def)
  show ?thesis
    using assms
    by (simp add: run_job_def pileup_all_def job_tasks_def bnd_def pool_create_def emit_def
          ret_def submit_loop_eq pool_join_schedule_free [OF inj] get_results_eq print_def
          split: option.splits)
qed

lemma run_job_fetch:
  assumes "region j = Some v" "1 \<le> nproc j"
  shows "run_job E sched j w
         = (if list_ex (result_lost E) (job_tasks j)
            then (Inl Hang,
                  w\<lparr>fs := fold (task_effect E) (job_tasks j) (fs w),
                    trace := trace w @ PoolCreate (nproc j) # map ApplyAsync (job_tasks j)\<rparr>)
            else (case first_raised E (job_tasks j) of
              Some e \<Rightarrow>
                (Inl e, w\<lparr>fs := fold (task_effect E) (job_tasks j) (fs w),
                          trace := trace w @ PoolCreate (nproc j) # map ApplyAsync (job_tasks j)\<rparr>)
            | None \<Rightarrow>
                bnd (call_merge_vcf E (out_file j) (map task_out (job_tasks j)))
                    (\<lambda>_. emit PrintElapsed)
                    (w\<lparr>fs := fold (task_effect E) (job_tasks j) (fs w),
                       trace := trace w @ PoolCreate (nproc j) # map ApplyAsync (job_tasks j)
                                @ [Print [],
                                   Print (''[cellSNP] fetched '' @ str_int (int (length (vcf_pos v)))
                                          @ '' variants, now merging temp files ... '')]\<rparr>)))"
proof -
  have inj: "inj_on task_out (set (map FetchPositions (fetch_tasks j v)))"
    using inj_on_task_out_job_tasks [of j] assms(1) by (simp add: job_tasks_def)
  show ?thesis
    using assms
    by (simp add: run_job_def fetch_all_def job_tasks_def bnd_def pool_create_def emit_def
          ret_def raise_def submit_loop_eq pool_join_schedule_free [OF inj] get_results_eq
          print_def split: option.splits)
qed

lemma run_job_fetch_no_pool:
  assumes "region j = Some v" "\<not> 1 \<le> nproc j"
  shows "run_job E sched j w
         = (if nproc j = 0 then (Inl ZeroDivisionError, w)
            else (Inl ValueError, w\<lparr>trace := trace w @ [PoolCreate (nproc j)]\<rparr>))"
  using assms
  by (simp add: run_job_def fetch_all_def bnd_def pool_create_def emit_def raise_def)

subsection \<open>Reading the trace\<close>

lemma new_events_append [simp]:
  "new_events w (w\<lparr>fs := f, trace := trace w @ evs\<rparr>) = evs"
  by (simp add: new_events_def)

lemma new_events_append_trace [simp]:
  "new_events w (w\<lparr>trace := trace w @ evs\<rparr>) = evs"
  by (simp add: new_events_def)

lemma new_events_same [simp]: "new_events w w = []"
  by (simp add: new_events_def)

lemma dispatched_append [simp]: "dispatched (xs @ ys) = dispatched xs @ dispatched ys"
  by (induction xs rule: dispatched.induct) simp_all

lemma merge_calls_append [simp]: "merge_calls (xs @ ys) = merge_calls xs @ merge_calls ys"
  by (induction xs rule: merge_calls.induct) simp_all

lemma pool_events_append [simp]: "pool_events (xs @ ys) = pool_events xs @ pool_events ys"
  by (induction xs rule: pool_events.induct) simp_all

lemma dispatched_Call [simp]: "dispatched (map Call ts) = ts"
  by (induction ts) simp_all

lemma dispatched_ApplyAsync [simp]: "dispatched (map ApplyAsync ts) = ts"
  by (induction ts) simp_all

lemma merge_calls_Call [simp]: "merge_calls (map Call ts) = []"
  by (induction ts) simp_all

lemma merge_calls_ApplyAsync [simp]: "merge_calls (map ApplyAsync ts) = []"
  by (induction ts) simp_all

lemma pool_events_Call [simp]: "pool_events (map Call ts) = []"
  by (induction ts) simp_all

lemma pool_events_ApplyAsync [simp]: "pool_events (map ApplyAsync ts) = map ApplyAsync ts"
  by (induction ts) simp_all

lemma ran_prefix_all: "first_raised E ts = None \<Longrightarrow> ran_prefix E ts = ts"
  by (induction ts) (simp_all split: option.splits)

lemma ran_prefix_take: "\<exists>k. ran_prefix E ts = take k ts"
proof (induction ts)
  case Nil
  show ?case by simp
next
  case (Cons t ts)
  then obtain k where k: "ran_prefix E ts = take k ts" by blast
  show ?case
  proof (cases "raised (run_task E t) = None")
    case True
    with k have "ran_prefix E (t # ts) = take (Suc k) (t # ts)" by simp
    then show ?thesis by blast
  next
    case False
    then have "ran_prefix E (t # ts) = take (Suc 0) (t # ts)" by auto
    then show ?thesis by blast
  qed
qed




lemma job_tasks_nproc: "region j = None \<Longrightarrow> job_tasks (j\<lparr>nproc := n\<rparr>) = job_tasks j"
  by (simp add: job_tasks_def pileup_task_def)

subsection \<open>The run of a job\<close>

lemma run_job_schedule_free: "run_job E sched j w = run_job E sched' j w"
proof (cases "region j")
  case None
  show ?thesis
  proof (cases "1 < nproc j")
    case True
    show ?thesis
      by (simp only: run_job_pileup_pooled [OF None True])
  next
    case False
    show ?thesis
      by (simp only: run_job_sequential [OF None False])
  qed
next
  case (Some v)
  show ?thesis
  proof (cases "1 \<le> nproc j")
    case True
    show ?thesis
      by (simp only: run_job_fetch [OF Some True])
  next
    case False
    show ?thesis
      by (simp only: run_job_fetch_no_pool [OF Some False])
  qed
qed

lemma merge_calls_run_job:
  "merge_calls (new_events w (snd (run_job E sched j w)))
   = (if first_raised E (job_tasks j) = None \<and> (region j = None \<or> 1 \<le> nproc j)
      then [(out_file j, map task_out (job_tasks j))] else [])"
proof (cases "region j")
  case None
  show ?thesis
  proof (cases "1 < nproc j")
    case True
    show ?thesis
      by (simp add: run_job_pileup_pooled [OF None True] merge_step_eq None
            no_raise_no_lost lost_first_raised split: option.splits)
  next
    case False
    show ?thesis
      by (simp add: run_job_sequential [OF None False] merge_step_eq None
            split: option.splits)
  qed
next
  case (Some v)
  show ?thesis
  proof (cases "1 \<le> nproc j")
    case True
    show ?thesis
      by (simp add: run_job_fetch [OF Some True] merge_step_eq Some True
            no_raise_no_lost lost_first_raised split: option.splits)
  next
    case False
    then have "job_tasks j = []"
      by (simp add: job_tasks_def Some fetch_tasks_def py_range_def)
    then show ?thesis
      using False by (simp add: run_job_fetch_no_pool [OF Some False] Some)
  qed
qed

text \<open>
  Claim C5. For every job and any two completion orders of its tasks, the two runs are
  the same run: same result, same files, same trace. In particular \<open>merge_vcf\<close> is called
  at most once, and then with the final output path and the temp paths of the tasks in
  partition order, whatever the completion order; it is called exactly when no task
  raised (and, in the targeted branch, \<open>nproc \<ge> 1\<close>).
\<close>

theorem completion_order_irrelevant:
  "run_job E sched j w = run_job E sched' j w
   \<and> main E sched argv options w = main E sched' argv options w
   \<and> merge_calls (new_events w (snd (run_job E sched j w)))
       = (if first_raised E (job_tasks j) = None \<and> (region j = None \<or> 1 \<le> nproc j)
          then [(out_file j, map task_out (job_tasks j))] else [])
   \<and> merge_calls (new_events w (snd (run_job E sched j w)))
       = merge_calls (new_events w (snd (run_job E sched' j w)))"
proof -
  have a: "run_job E sched j w = run_job E sched' j w"
    by (rule run_job_schedule_free)
  have "run_job E sched = run_job E sched'"
    by (intro ext) (rule run_job_schedule_free)
  then have b: "main E sched argv options w = main E sched' argv options w"
    by (simp only: main_def)
  have c: "merge_calls (new_events w (snd (run_job E sched j w)))
           = (if first_raised E (job_tasks j) = None \<and> (region j = None \<or> 1 \<le> nproc j)
              then [(out_file j, map task_out (job_tasks j))] else [])"
    by (rule merge_calls_run_job)
  have d: "merge_calls (new_events w (snd (run_job E sched j w)))
           = merge_calls (new_events w (snd (run_job E sched' j w)))"
    by (simp only: merge_calls_run_job)
  from a b c d show ?thesis by blast
qed

lemma demo_job_tasks:
  "job_tasks demo_job
   = [PileupRegions (pileup_task demo_job ''1''), PileupRegions (pileup_task demo_job ''2''),
      PileupRegions (pileup_task demo_job ''X'')]"
  by (simp add: job_tasks_def demo_job_def)

lemma demo_temp_names:
  "temp_name (out_file demo_job) ''1'' = ''out/res.vcf.temp_1_''"
  "temp_name (out_file demo_job) ''2'' = ''out/res.vcf.temp_2_''"
  "temp_name (out_file demo_job) ''X'' = ''out/res.vcf.temp_X_''"
  by (simp_all add: temp_name_def demo_job_def)

lemma demo_first_raised: "first_raised demo_env (job_tasks demo_job) = None"
  by (simp add: demo_job_tasks demo_env_def)

theorem completion_order_irrelevant_witness:
  "completion_order [2, 1, 0] (job_tasks demo_job) = rev (job_tasks demo_job)
   \<and> run_job demo_env [2, 1, 0] demo_job demo_world = run_job demo_env [] demo_job demo_world
   \<and> merge_calls (new_events demo_world (snd (run_job demo_env [2, 1, 0] demo_job demo_world)))
       = [(''out/res.vcf'',
           [''out/res.vcf.temp_1_'', ''out/res.vcf.temp_2_'', ''out/res.vcf.temp_X_''])]
   \<and> fs (snd (run_job demo_env [2, 1, 0] demo_job demo_world)) ''out/res.vcf''
       = Some (File [''chrom 1'', ''chrom 2'', ''chrom X''])"
proof -
  have a: "completion_order [2, 1, 0] (job_tasks demo_job) = rev (job_tasks demo_job)"
    by (simp add: demo_job_tasks Let_def)
  have o: "out_file demo_job = ''out/res.vcf''" by (simp add: demo_job_def)
  have r: "region demo_job = None" and n: "1 < nproc demo_job"
    by (simp_all add: demo_job_def)
  have outs: "map task_out (job_tasks demo_job)
              = [''out/res.vcf.temp_1_'', ''out/res.vcf.temp_2_'', ''out/res.vcf.temp_X_'']"
    by (simp add: demo_job_tasks chr_out_file_pileup_task demo_temp_names)
  have f: "fs (snd (run_job demo_env [2, 1, 0] demo_job demo_world)) ''out/res.vcf''
           = Some (File [''chrom 1'', ''chrom 2'', ''chrom X''])"
    by (simp add: run_job_pileup_pooled [OF r n] demo_first_raised
          no_raise_no_lost [OF demo_first_raised] merge_step_eq outs o)
       (simp add: demo_job_tasks demo_env_def demo_merge_def task_effect_def
          chr_out_file_pileup_task demo_temp_names pileup_task_def)
  note t = completion_order_irrelevant
             [of demo_env "[2, 1, 0]" demo_job demo_world "[]" "[]" default_options]
  from t have b: "run_job demo_env [2, 1, 0] demo_job demo_world
                  = run_job demo_env [] demo_job demo_world"
    by (rule conjunct1)
  from t have "merge_calls (new_events demo_world
                              (snd (run_job demo_env [2, 1, 0] demo_job demo_world)))
               = (if first_raised demo_env (job_tasks demo_job) = None
                     \<and> (region demo_job = None \<or> 1 \<le> nproc demo_job)
                  then [(out_file demo_job, map task_out (job_tasks demo_job))] else [])"
    by blast
  then have c: "merge_calls (new_events demo_world
                               (snd (run_job demo_env [2, 1, 0] demo_job demo_world)))
                = [(''out/res.vcf'',
                    [''out/res.vcf.temp_1_'', ''out/res.vcf.temp_2_'', ''out/res.vcf.temp_X_''])]"
    by (simp only: demo_first_raised r outs o simp_thms if_True)
  from a b c f show ?thesis by (simp only: simp_thms)
qed
lemma dispatched_run_job_whole_genome:
  assumes "region j = None"
  shows "dispatched (new_events w (snd (run_job E sched j w)))
         = (if 1 < nproc j then job_tasks j else ran_prefix E (job_tasks j))"
proof (cases "1 < nproc j")
  case True
  show ?thesis
    by (simp add: run_job_pileup_pooled [OF assms True] merge_step_eq True
          split: option.splits)
next
  case False
  show ?thesis
    by (simp add: run_job_sequential [OF assms False] merge_step_eq False
          split: option.splits)
qed

lemma build_job_chrom_all:
  assumes "fst (build_job E argv options w) = Inr j"
  shows "chrom_all j = chrom_all_of (opt_chrom_all options)"
  using assms
  by (auto simp: build_job_def bnd_def ret_def split: prod.splits sum.splits)

lemma default_chrom_all:
  "chrom_all_of None
   = chrom_all_of (Some ''1,2,3,4,5,6,7,8,9,10,11,12,13,14,15,16,17,18,19,20,21,22'')"
  by code_simp

text \<open>
  Claim C6. In the whole-genome branch the tasks are one pileup task per chromosome of the
  chromosome list, in the list's order, each with its chromosome name as partition key
  and the temp path of that name. A pooled run submits exactly these tasks, and so does a
  sequential run in which no task raises; a sequential run that is ended by an exception
  has called a prefix of them. The chromosome list of a job is the comma-separated
  \<open>--chrom\<close> option, and without the option the 22 names 1 to 22 in order.
\<close>

theorem one_task_per_chromosome:
  assumes "region j = None"
  shows "job_tasks j = map (\<lambda>c. PileupRegions (pileup_task j c)) (chrom_all j)
       \<and> length (job_tasks j) = length (chrom_all j)
       \<and> (\<forall>c. p_chrom (pileup_task j c) = c
              \<and> chr_out_file (pileup_task j c) = temp_name (out_file j) c)
       \<and> (1 < nproc j \<or> first_raised E (job_tasks j) = None
            \<longrightarrow> dispatched (new_events w (snd (run_job E sched j w))) = job_tasks j)
       \<and> (\<exists>k. dispatched (new_events w (snd (run_job E sched j w))) = take k (job_tasks j))
       \<and> (\<forall>j'. fst (build_job E argv options w) = Inr j'
              \<longrightarrow> chrom_all j' = chrom_all_of (opt_chrom_all options))
       \<and> chrom_all_of None
           = chrom_all_of (Some ''1,2,3,4,5,6,7,8,9,10,11,12,13,14,15,16,17,18,19,20,21,22'')
       \<and> length (chrom_all_of None) = 22
       \<and> hd (chrom_all_of None) = ''1'' \<and> last (chrom_all_of None) = ''22''
       \<and> chrom_all_of (Some ''1,2,X'') = [''1'', ''2'', ''X'']"
proof -
  let ?d = "dispatched (new_events w (snd (run_job E sched j w)))"
  have a: "job_tasks j = map (\<lambda>c. PileupRegions (pileup_task j c)) (chrom_all j)"
    using assms by (simp add: job_tasks_def)
  have b: "length (job_tasks j) = length (chrom_all j)"
    by (simp add: a)
  have c: "\<forall>c. p_chrom (pileup_task j c) = c
              \<and> chr_out_file (pileup_task j c) = temp_name (out_file j) c"
    by (simp add: pileup_task_def)
  have d: "1 < nproc j \<or> first_raised E (job_tasks j) = None \<longrightarrow> ?d = job_tasks j"
    by (auto simp: dispatched_run_job_whole_genome [OF assms] ran_prefix_all)
  have e: "\<exists>k. ?d = take k (job_tasks j)"
  proof (cases "1 < nproc j")
    case True
    then have "?d = take (length (job_tasks j)) (job_tasks j)"
      by (simp add: dispatched_run_job_whole_genome [OF assms])
    then show ?thesis by blast
  next
    case False
    then show ?thesis
      using ran_prefix_take [of E "job_tasks j"]
      by (simp add: dispatched_run_job_whole_genome [OF assms])
  qed
  have f: "\<forall>j'. fst (build_job E argv options w) = Inr j'
              \<longrightarrow> chrom_all j' = chrom_all_of (opt_chrom_all options)"
    using build_job_chrom_all by blast
  have g: "length (chrom_all_of None) = 22"
    by (simp add: chrom_all_of_def)
  have h: "hd (chrom_all_of None) = ''1''" "last (chrom_all_of None) = ''22''"
    by code_simp+
  have i: "chrom_all_of (Some ''1,2,X'') = [''1'', ''2'', ''X'']"
    by code_simp
  from a b c d e f default_chrom_all g h i show ?thesis by blast
qed

theorem one_task_per_chromosome_witness:
  "region demo_job = None \<and> 1 < nproc demo_job
   \<and> chrom_all demo_job = [''1'', ''2'', ''X'']
   \<and> dispatched (new_events demo_world (snd (run_job demo_env [] demo_job demo_world)))
       = [PileupRegions (pileup_task demo_job ''1''), PileupRegions (pileup_task demo_job ''2''),
          PileupRegions (pileup_task demo_job ''X'')]
   \<and> map (\<lambda>c. p_chrom (pileup_task demo_job c)) (chrom_all demo_job) = [''1'', ''2'', ''X'']"
proof -
  have r: "region demo_job = None" and n: "1 < nproc demo_job"
    and c: "chrom_all demo_job = [''1'', ''2'', ''X'']"
    by (simp_all add: demo_job_def)
  note t = one_task_per_chromosome
             [OF r, of demo_env demo_world "[]" "[]" default_options]
  from t have "1 < nproc demo_job \<or> first_raised demo_env (job_tasks demo_job) = None
               \<longrightarrow> dispatched (new_events demo_world
                               (snd (run_job demo_env [] demo_job demo_world)))
                   = job_tasks demo_job"
    by blast
  with n have d: "dispatched (new_events demo_world
                               (snd (run_job demo_env [] demo_job demo_world)))
                  = job_tasks demo_job"
    by blast
  from t have p: "\<forall>c. p_chrom (pileup_task demo_job c) = c"
    by blast
  from r n c d p show ?thesis by (simp add: demo_job_tasks)
qed

subsection \<open>A task that raises\<close>




lemma demo_job4_tasks:
  "job_tasks demo_job4
   = [PileupRegions (pileup_task demo_job4 ''1''), PileupRegions (pileup_task demo_job4 ''2''),
      PileupRegions (pileup_task demo_job4 ''3''), PileupRegions (pileup_task demo_job4 ''4'')]"
  by (simp add: job_tasks_def demo_job4_def demo_job_def)

lemma demo_job4_first_raised:
  "first_raised failing_env (job_tasks demo_job4) = Some (External ''pileup failed'')"
  by (simp add: demo_job4_tasks failing_env_def demo_env_def pileup_task_def)

lemma demo_job4_not_lost: "\<not> list_ex (result_lost failing_env) (job_tasks demo_job4)"
  by (simp add: demo_job4_tasks result_lost_def failing_env_def demo_env_def pileup_task_def)



lemma demo_job4_seq_tasks: "job_tasks (demo_job4\<lparr>nproc := 1\<rparr>) = job_tasks demo_job4"
  by (rule job_tasks_nproc) (simp add: demo_job4_def demo_job_def)


lemma demo_job4_run:
  "run_job failing_env sched demo_job4 demo_world
   = (Inl (External ''pileup failed''),
      demo_world\<lparr>fs := fold (task_effect failing_env) (job_tasks demo_job4) (fs demo_world),
                  trace := trace demo_world
                           @ PoolCreate 4 # map ApplyAsync (job_tasks demo_job4)\<rparr>)"
proof -
  have r: "region demo_job4 = None" and n: "1 < nproc demo_job4"
    by (simp_all add: demo_job4_def demo_job_def)
  have "nproc demo_job4 = 4" by (simp add: demo_job4_def)
  then show ?thesis
    by (simp add: run_job_pileup_pooled [OF r n] demo_job4_first_raised demo_job4_not_lost)
qed

lemma demo_job4_files:
  "fold (task_effect failing_env) (job_tasks demo_job4) demo_fs
   = demo_fs(''out/res.vcf.temp_1_'' \<mapsto> File [''chrom 1''],
             ''out/res.vcf.temp_3_'' \<mapsto> File [''chrom 3''],
             ''out/res.vcf.temp_4_'' \<mapsto> File [''chrom 4''])"
  by (simp only: demo_job4_tasks)
     (simp add: task_effect_def failing_env_def demo_env_def pileup_task_def temp_name_def
        demo_job4_def demo_job_def)

lemma demo_job4_fs:
  "fs (snd (run_job failing_env sched demo_job4 demo_world))
   = demo_fs(''out/res.vcf.temp_1_'' \<mapsto> File [''chrom 1''],
             ''out/res.vcf.temp_3_'' \<mapsto> File [''chrom 3''],
             ''out/res.vcf.temp_4_'' \<mapsto> File [''chrom 4''])"
  by (simp only: demo_job4_run) (simp add: demo_world_def demo_job4_files)




subsection \<open>Sequential and pooled runs\<close>

lemma pool_events_sequential:
  assumes "region j = None" "\<not> 1 < nproc j"
  shows "pool_events (new_events w (snd (run_job E sched j w))) = []"
  by (simp add: run_job_sequential [OF assms] merge_step_eq split: option.splits)

lemma pool_events_fetch:
  assumes "region j = Some v" "1 \<le> nproc j"
  shows "pool_events (new_events w (snd (run_job E sched j w)))
         = PoolCreate (nproc j) # map ApplyAsync (job_tasks j)"
  by (simp add: run_job_fetch [OF assms] merge_step_eq split: option.splits)

lemma sequential_as_pooled:
  assumes "region j = None" "\<not> 1 < nproc j" "1 < n" "first_raised E (job_tasks j) = None"
  shows "fst (run_job E sched j w) = fst (run_job E sched' (j\<lparr>nproc := n\<rparr>) w)
       \<and> fs (snd (run_job E sched j w)) = fs (snd (run_job E sched' (j\<lparr>nproc := n\<rparr>) w))
       \<and> merge_calls (new_events w (snd (run_job E sched j w)))
           = merge_calls (new_events w (snd (run_job E sched' (j\<lparr>nproc := n\<rparr>) w)))
       \<and> dispatched (new_events w (snd (run_job E sched j w)))
           = dispatched (new_events w (snd (run_job E sched' (j\<lparr>nproc := n\<rparr>) w)))"
proof -
  let ?j = "j\<lparr>nproc := n\<rparr>"
  have r: "region ?j = None" using assms(1) by simp
  have n: "1 < nproc ?j" using assms(3) by simp
  have t: "job_tasks ?j = job_tasks j" using assms(1) by (rule job_tasks_nproc)
  have p: "ran_prefix E (job_tasks j) = job_tasks j"
    using assms(4) by (rule ran_prefix_all)
  show ?thesis
    by (simp add: run_job_sequential [OF assms(1,2)] run_job_pileup_pooled [OF r n] t p
          assms(4) no_raise_no_lost [OF assms(4)] merge_step_eq split: option.splits)
qed

text \<open>
  Claim C8, as amended. In the whole-genome branch, whenever \<open>nproc \<le> 1\<close> (so also for one
  worker) the tasks are called one after the other on the caller and no pool is created;
  when no task raises, this run returns the same result, leaves the same files, calls
  \<open>merge_vcf\<close> with the same arguments and hands out the same tasks as a pooled run of the
  same job.
\<close>

theorem sequential_only_in_whole_genome:
  "(region j = None \<and> nproc j \<le> 1
      \<longrightarrow> pool_events (new_events w (snd (run_job E sched j w))) = []
          \<and> dispatched (new_events w (snd (run_job E sched j w))) = ran_prefix E (job_tasks j))
   \<and> (region j = None \<and> nproc j \<le> 1 \<and> 1 < n \<and> first_raised E (job_tasks j) = None
      \<longrightarrow> fst (run_job E sched j w) = fst (run_job E sched' (j\<lparr>nproc := n\<rparr>) w)
          \<and> fs (snd (run_job E sched j w)) = fs (snd (run_job E sched' (j\<lparr>nproc := n\<rparr>) w))
          \<and> merge_calls (new_events w (snd (run_job E sched j w)))
              = merge_calls (new_events w (snd (run_job E sched' (j\<lparr>nproc := n\<rparr>) w)))
          \<and> dispatched (new_events w (snd (run_job E sched j w)))
              = dispatched (new_events w (snd (run_job E sched' (j\<lparr>nproc := n\<rparr>) w))))"
proof -
  have a: "pool_events (new_events w (snd (run_job E sched j w))) = []
           \<and> dispatched (new_events w (snd (run_job E sched j w))) = ran_prefix E (job_tasks j)"
    if "region j = None" "nproc j \<le> 1"
  proof -
    from that(2) have s: "\<not> 1 < nproc j" by simp
    show ?thesis
      using s by (simp add: pool_events_sequential [OF that(1) s]
                    dispatched_run_job_whole_genome [OF that(1)])
  qed
  have b: "fst (run_job E sched j w) = fst (run_job E sched' (j\<lparr>nproc := n\<rparr>) w)
           \<and> fs (snd (run_job E sched j w)) = fs (snd (run_job E sched' (j\<lparr>nproc := n\<rparr>) w))
           \<and> merge_calls (new_events w (snd (run_job E sched j w)))
               = merge_calls (new_events w (snd (run_job E sched' (j\<lparr>nproc := n\<rparr>) w)))
           \<and> dispatched (new_events w (snd (run_job E sched j w)))
               = dispatched (new_events w (snd (run_job E sched' (j\<lparr>nproc := n\<rparr>) w)))"
    if "region j = None" "nproc j \<le> 1" "1 < n" "first_raised E (job_tasks j) = None"
  proof -
    from that(2) have s: "\<not> 1 < nproc j" by simp
    show ?thesis by (rule sequential_as_pooled [OF that(1) s that(3,4)])
  qed
  from a b show ?thesis by blast
qed

theorem sequential_only_in_whole_genome_witness:
  "region demo_job_seq = None \<and> nproc demo_job_seq \<le> 1
   \<and> first_raised demo_env (job_tasks demo_job_seq) = None
   \<and> pool_events (new_events demo_world (snd (run_job demo_env [] demo_job_seq demo_world))) = []
   \<and> dispatched (new_events demo_world (snd (run_job demo_env [] demo_job_seq demo_world)))
       = job_tasks demo_job
   \<and> fst (run_job demo_env [] demo_job_seq demo_world)
       = fst (run_job demo_env [2, 1, 0] demo_job demo_world)
   \<and> fs (snd (run_job demo_env [] demo_job_seq demo_world))
       = fs (snd (run_job demo_env [2, 1, 0] demo_job demo_world))"
proof -
  have r: "region demo_job_seq = None" and n: "nproc demo_job_seq \<le> 1"
    by (simp_all add: demo_job_seq_def demo_job_def)
  have j: "demo_job_seq\<lparr>nproc := 3\<rparr> = demo_job"
    by (simp add: demo_job_seq_def demo_job_def)
  have t: "job_tasks demo_job_seq = job_tasks demo_job"
    unfolding demo_job_seq_def by (rule job_tasks_nproc) (simp add: demo_job_def)
  have f: "first_raised demo_env (job_tasks demo_job_seq) = None"
    by (simp only: t demo_first_raised)
  note a = sequential_only_in_whole_genome
             [where j = demo_job_seq and w = demo_world and E = demo_env and sched = "[]"
                and n = 3 and sched' = "[2, 1, 0]"]
  from a r n have p: "pool_events (new_events demo_world
                                     (snd (run_job demo_env [] demo_job_seq demo_world))) = []"
    by blast
  from a r n have "dispatched (new_events demo_world
                                 (snd (run_job demo_env [] demo_job_seq demo_world)))
                   = ran_prefix demo_env (job_tasks demo_job_seq)"
    by blast
  then have d: "dispatched (new_events demo_world
                              (snd (run_job demo_env [] demo_job_seq demo_world)))
                = job_tasks demo_job"
    using ran_prefix_all [OF f] by (simp only: t)
  have three: "(1::int) < 3" by simp
  from a r n three f
  have "fst (run_job demo_env [] demo_job_seq demo_world)
          = fst (run_job demo_env [2, 1, 0] (demo_job_seq\<lparr>nproc := 3\<rparr>) demo_world)
        \<and> fs (snd (run_job demo_env [] demo_job_seq demo_world))
          = fs (snd (run_job demo_env [2, 1, 0] (demo_job_seq\<lparr>nproc := 3\<rparr>) demo_world))"
    by blast
  then have e: "fst (run_job demo_env [] demo_job_seq demo_world)
                  = fst (run_job demo_env [2, 1, 0] demo_job demo_world)
                \<and> fs (snd (run_job demo_env [] demo_job_seq demo_world))
                  = fs (snd (run_job demo_env [2, 1, 0] demo_job demo_world))"
    by (simp only: j)
  from r n f p d e show ?thesis by (simp only: simp_thms)
qed

lemma demo_job4_ran_prefix:
  "ran_prefix failing_env (job_tasks demo_job4)
   = [PileupRegions (pileup_task demo_job4 ''1''), PileupRegions (pileup_task demo_job4 ''2'')]"
  by (simp add: demo_job4_tasks failing_env_def demo_env_def pileup_task_def)

lemma demo_job4_seq_fs:
  "fs (snd (run_job failing_env sched (demo_job4\<lparr>nproc := 1\<rparr>) demo_world))
   = demo_fs(''out/res.vcf.temp_1_'' \<mapsto> File [''chrom 1''])"
proof -
  have r: "region (demo_job4\<lparr>nproc := 1\<rparr>) = None" and n: "\<not> 1 < nproc (demo_job4\<lparr>nproc := 1\<rparr>)"
    by (simp_all add: demo_job4_def demo_job_def)
  have "fs (snd (run_job failing_env sched (demo_job4\<lparr>nproc := 1\<rparr>) demo_world))
        = fold (task_effect failing_env) (ran_prefix failing_env (job_tasks demo_job4)) demo_fs"
    by (simp add: run_job_sequential [OF r n] demo_job4_seq_tasks demo_job4_first_raised
          demo_world_def)
  also have "\<dots> = demo_fs(''out/res.vcf.temp_1_'' \<mapsto> File [''chrom 1''])"
    by (simp only: demo_job4_ran_prefix)
       (simp add: task_effect_def failing_env_def demo_env_def pileup_task_def temp_name_def
          demo_job4_def demo_job_def)
  finally show ?thesis .
qed

text \<open>
  Claim C8 as stated fails twice. With one worker the targeted branch still creates a
  pool and submits its single task to it. And when a task raises, the sequential
  whole-genome run on one worker stops there, while the pooled run of the same job lets
  every task finish: with the second of four tasks raising, the temp file of the third is
  never written by the sequential run and is written by the pooled run.
\<close>

theorem one_worker_not_always_sequential:
  "nproc demo_job_targeted = 1
   \<and> PoolCreate 1 \<in> set (trace (snd (run_job demo_env [] demo_job_targeted demo_world)))
   \<and> pool_events (new_events demo_world (snd (run_job demo_env [] demo_job_targeted demo_world)))
       = PoolCreate 1 # map ApplyAsync (job_tasks demo_job_targeted)
   \<and> length (job_tasks demo_job_targeted) = 1
   \<and> fs (snd (run_job failing_env [] (demo_job4\<lparr>nproc := 1\<rparr>) demo_world))
         ''out/res.vcf.temp_3_'' = None
   \<and> fs (snd (run_job failing_env [] demo_job4 demo_world)) ''out/res.vcf.temp_3_''
       = Some (File [''chrom 3''])"
proof -
  have r: "region demo_job_targeted = Some demo_vcf" and n: "1 \<le> nproc demo_job_targeted"
    and n1: "nproc demo_job_targeted = 1"
    by (simp_all add: demo_job_targeted_def)
  have l: "length (job_tasks demo_job_targeted) = 1"
    by (simp add: job_tasks_def r fetch_tasks_def py_range_def n1)
  have p: "pool_events (new_events demo_world
                          (snd (run_job demo_env [] demo_job_targeted demo_world)))
           = PoolCreate 1 # map ApplyAsync (job_tasks demo_job_targeted)"
    using pool_events_fetch [OF r n, of demo_world demo_env "[]"] by (simp only: n1)
  have c: "PoolCreate 1 \<in> set (trace (snd (run_job demo_env [] demo_job_targeted demo_world)))"
    by (simp add: run_job_fetch [OF r n] merge_step_eq n1 split: option.splits)
  have s: "fs (snd (run_job failing_env [] (demo_job4\<lparr>nproc := 1\<rparr>) demo_world))
             ''out/res.vcf.temp_3_'' = None"
    by (simp add: demo_job4_seq_fs demo_fs_def)
  have q: "fs (snd (run_job failing_env [] demo_job4 demo_world)) ''out/res.vcf.temp_3_''
           = Some (File [''chrom 3''])"
    by (simp add: demo_job4_fs)
  from n1 c p l s q show ?thesis by (simp only: simp_thms)
qed

end
